theory Spec2Isabelle
  imports Main
begin

section \<open>The GCM clustering pipeline (gcm\_script.py)\<close>

text \<open>
  The script stages an edge list in a scratch directory, runs three external programs on it
  (the formatter, \<open>work.sh\<close> and the clustering binary \<open>a.out\<close>), rewrites the
  clustering result with the original node identifiers and publishes it.

  The model is a state-passing embedding. A \<open>world\<close> holds what the script can
  observe or change: the regular files (absolute path to content), the directories, the
  process's working directory, the text printed so far and the source of random numbers.
  Two further fields only record what happened and are never read by the code: \<open>procs\<close>
  lists the child processes started (argument vector and the \<open>check\<close> flag) and
  \<open>trace\<close> lists the pipeline functions entered. A Python exception is a value of type
  \<open>error\<close>; a function that can raise returns \<open>error + 'a\<close> together with the world
  it leaves behind.
\<close>

subsection \<open>Errors, process outcomes and the world\<close>

type_synonym path = string

datatype error =
    FileNotFoundError
  | FileExistsError
  | IsADirectoryError
  | NotADirectoryError
  | SameFileError
  | CalledProcessError int
  | TimeoutExpired
  | ValueError
  | KeyError int
  | UnboundLocalError string

text \<open>
  What \<open>subprocess.run\<close> can report about a child: it ran and exited with a status, the
  executable was not found, or the time limit expired. These are the three exception
  classes \<open>subprocess_context\<close> names.
\<close>

datatype outcome = Exited int | NotFound | TimedOut

datatype stage = Staging | Formatting | Preparation | Clustering | Remap | Cleanup

record world =
  files :: "path \<rightharpoonup> string"
  dirs :: "path set"
  cwd :: path
  stdout :: "string list"
  rng :: "nat \<Rightarrow> nat"
  rng_pos :: nat
  procs :: "(string list \<times> bool) list"
  trace :: "stage list"

text \<open>
  The environment of a run: the directory holding the script (\<open>Path(__file__).resolve().parent\<close>)
  and the behaviour of external programs. A program is given its argument vector, the files
  and the working directory; it reports an outcome and the files it leaves. External programs
  create, change or delete regular files; they do not touch directories.
\<close>

record env =
  source_dir :: path
  program :: "string list \<Rightarrow> (path \<rightharpoonup> string) \<Rightarrow> path \<Rightarrow> outcome \<times> (path \<rightharpoonup> string)"

subsection \<open>Characters, lines and integers\<close>

definition LF :: char where
  "LF = CHR 0x0A"

definition CR :: char where
  "CR = CHR 0x0D"

text \<open>The ASCII characters for which \<open>str.isspace\<close> holds.\<close>

definition is_space :: "char \<Rightarrow> bool" where
  "is_space c = (c \<in> {CHR '' '', CHR 0x09, CHR 0x0A, CHR 0x0B, CHR 0x0C, CHR 0x0D,
                        CHR 0x1C, CHR 0x1D, CHR 0x1E, CHR 0x1F})"

definition strip :: "string \<Rightarrow> string" where
  "strip s = rev (dropWhile is_space (rev (dropWhile is_space s)))"

text \<open>\<open>str.split()\<close> without arguments: the maximal runs of non-space characters.\<close>

fun split_acc :: "string \<Rightarrow> string \<Rightarrow> string list" where
  "split_acc cur [] = (if cur = [] then [] else [cur])"
| "split_acc cur (c # cs) =
     (if is_space c then (if cur = [] then split_acc [] cs else cur # split_acc [] cs)
      else split_acc (cur @ [c]) cs)"

definition split_ws :: "string \<Rightarrow> string list" where
  "split_ws s = split_acc [] s"

text \<open>
  Iterating over a file opened in text mode: the lines of the content, ended by
  \<open>\n\<close>, \<open>\r\n\<close> or \<open>\r\<close> (universal newlines). The terminator is dropped here, since
  both readers strip or split each line.
\<close>

fun lines_acc :: "string \<Rightarrow> string \<Rightarrow> string list" where
  "lines_acc cur [] = (if cur = [] then [] else [cur])"
| "lines_acc cur [c] = (if c = LF \<or> c = CR then [cur] else [cur @ [c]])"
| "lines_acc cur (c # d # cs) =
     (if c = LF then cur # lines_acc [] (d # cs)
      else if c = CR then (if d = LF then cur # lines_acc [] cs else cur # lines_acc [] (d # cs))
      else lines_acc (cur @ [c]) (d # cs))"

definition file_lines :: "string \<Rightarrow> string list" where
  "file_lines c = lines_acc [] c"

definition is_digit :: "char \<Rightarrow> bool" where
  "is_digit c = (c \<in> set ''0123456789'')"

definition digit_val :: "char \<Rightarrow> nat" where
  "digit_val c = of_char c - 48"

text \<open>
  \<open>int(text)\<close> in base ten: surrounding space is ignored, one sign is allowed, and single
  underscores may separate digits. \<open>None\<close> stands for the \<open>ValueError\<close>.
\<close>

fun digits_from :: "nat \<Rightarrow> string \<Rightarrow> nat option" where
  "digits_from acc [] = Some acc"
| "digits_from acc [c] = (if is_digit c then Some (acc * 10 + digit_val c) else None)"
| "digits_from acc (c # d # cs) =
     (if is_digit c then digits_from (acc * 10 + digit_val c) (d # cs)
      else if c = CHR ''_'' \<and> is_digit d then digits_from (acc * 10 + digit_val d) cs
      else None)"

definition parse_nat :: "string \<Rightarrow> nat option" where
  "parse_nat s = (case s of [] \<Rightarrow> None
     | c # cs \<Rightarrow> if is_digit c then digits_from (digit_val c) cs else None)"

definition py_int :: "string \<Rightarrow> int option" where
  "py_int s = (case strip s of [] \<Rightarrow> None
     | c # cs \<Rightarrow>
         if c = CHR ''-'' then map_option (\<lambda>n. - int n) (parse_nat cs)
         else if c = CHR ''+'' then map_option int (parse_nat cs)
         else map_option int (parse_nat (c # cs)))"

text \<open>\<open>str(n)\<close> for an integer, as an f-string renders it.\<close>

definition digit_char :: "nat \<Rightarrow> char" where
  "digit_char n = ''0123456789'' ! n"

fun show_nat :: "nat \<Rightarrow> string" where
  "show_nat n = (if n < 10 then [digit_char n]
                 else show_nat (n div 10) @ [digit_char (n mod 10)])"

declare show_nat.simps [simp del]

definition show_int :: "int \<Rightarrow> string" where
  "show_int i = (if i < 0 then CHR ''-'' # show_nat (nat (- i)) else show_nat (nat i))"

subsection \<open>Paths\<close>

definition is_abs :: "path \<Rightarrow> bool" where
  "is_abs p = (case p of [] \<Rightarrow> False | c # _ \<Rightarrow> c = CHR ''/'')"

text \<open>\<open>os.path.join\<close> of two components.\<close>

definition path_join :: "path \<Rightarrow> path \<Rightarrow> path" where
  "path_join a b =
     (if is_abs b then b
      else if a = [] \<or> last a = CHR ''/'' then a @ b
      else a @ ''/'' @ b)"

definition basename :: "path \<Rightarrow> string" where
  "basename p = rev (takeWhile (\<lambda>c. c \<noteq> CHR ''/'') (rev p))"

definition dirname :: "path \<Rightarrow> path" where
  "dirname p =
     (let h = rev (dropWhile (\<lambda>c. c \<noteq> CHR ''/'') (rev p))
      in if filter (\<lambda>c. c \<noteq> CHR ''/'') h = [] then h
         else rev (dropWhile (\<lambda>c. c = CHR ''/'') (rev h)))"

text \<open>
  \<open>Path(name).with_stem(Path(name).stem + tag)\<close> for a single path component: the tag
  goes before the last suffix. A component that is empty or \<open>.\<close> has no name, and
  \<open>with_stem\<close> raises \<open>ValueError\<close> (here \<open>None\<close>). \<open>gcm\<close> only passes base names.
\<close>

definition path_suffix :: "string \<Rightarrow> string" where
  "path_suffix name =
     (let t = takeWhile (\<lambda>c. c \<noteq> CHR ''.'') (rev name)
      in if CHR ''.'' \<in> set name \<and> t \<noteq> [] \<and> length t + 1 < length name
         then CHR ''.'' # rev t else [])"

definition path_stem :: "string \<Rightarrow> string" where
  "path_stem name = take (length name - length (path_suffix name)) name"

definition with_stem_tag :: "string \<Rightarrow> string \<Rightarrow> string option" where
  "with_stem_tag name tag =
     (if name = [] \<or> name = ''.'' then None
      else Some (path_stem name @ tag @ path_suffix name))"

subsection \<open>The file system\<close>

text \<open>
  Files and directories are keyed by absolute path; a relative path is taken from the
  working directory. Paths are compared as text (no \<open>..\<close> or symbolic links).
\<close>

definition resolve :: "world \<Rightarrow> path \<Rightarrow> path" where
  "resolve s p = path_join (cwd s) p"

definition path_exists :: "world \<Rightarrow> path \<Rightarrow> bool" where
  "path_exists s p = (files s (resolve s p) \<noteq> None \<or> resolve s p \<in> dirs s)"

fun starts_with :: "string \<Rightarrow> string \<Rightarrow> bool" where
  "starts_with [] q = True"
| "starts_with (x # xs) [] = False"
| "starts_with (x # xs) (y # ys) = (x = y \<and> starts_with xs ys)"

definition within :: "path \<Rightarrow> path \<Rightarrow> bool" where
  "within d q = (q = d \<or> starts_with (d @ ''/'') q)"

definition print :: "string \<Rightarrow> world \<Rightarrow> world" where
  "print msg s = s\<lparr>stdout := stdout s @ [msg]\<rparr>"

definition enter :: "stage \<Rightarrow> world \<Rightarrow> world" where
  "enter g s = s\<lparr>trace := trace s @ [g]\<rparr>"

text \<open>
  \<open>os.makedirs(p)\<close> without \<open>exist_ok\<close>. The only call names a child of the working
  directory, so the model adds the leaf.
\<close>

definition makedirs :: "path \<Rightarrow> world \<Rightarrow> (error + unit) \<times> world" where
  "makedirs p s =
     (let a = resolve s p
      in if a \<in> dirs s \<or> files s a \<noteq> None then (Inl FileExistsError, s)
         else (Inr (), s\<lparr>dirs := insert a (dirs s)\<rparr>))"

text \<open>
  \<open>shutil.copy(src, dst)\<close>. The source must be a regular file; a path whose last component
  is empty, \<open>.\<close> or \<open>..\<close> names a directory. A destination that is a directory receives
  the file under the source's base name; otherwise its parent directory must exist.
\<close>

definition copy_file :: "path \<Rightarrow> path \<Rightarrow> world \<Rightarrow> (error + unit) \<times> world" where
  "copy_file src dst s =
     (let a = resolve s src;
          b0 = resolve s dst;
          b = (if b0 \<in> dirs s then path_join b0 (basename a) else b0)
      in case files s a of
           None \<Rightarrow> (Inl (if a \<in> dirs s then IsADirectoryError else FileNotFoundError), s)
         | Some c \<Rightarrow>
             if basename a \<in> {[], ''.'', ''..''} then (Inl IsADirectoryError, s)
             else if a = b then (Inl SameFileError, s)
             else if b \<in> dirs s then (Inl IsADirectoryError, s)
             else if dirname b \<notin> dirs s then (Inl FileNotFoundError, s)
             else (Inr (), s\<lparr>files := (files s)(b \<mapsto> c)\<rparr>))"

definition chdir :: "path \<Rightarrow> world \<Rightarrow> (error + unit) \<times> world" where
  "chdir p s =
     (let a = resolve s p
      in if a \<in> dirs s then (Inr (), s\<lparr>cwd := a\<rparr>)
         else (Inl (if files s a \<noteq> None then NotADirectoryError else FileNotFoundError), s))"

definition rmtree :: "path \<Rightarrow> world \<Rightarrow> (error + unit) \<times> world" where
  "rmtree p s =
     (let a = resolve s p
      in if a \<in> dirs s
         then (Inr (), s\<lparr>dirs := {d \<in> dirs s. \<not> within a d},
                          files := (\<lambda>q. if within a q then None else files s q)\<rparr>)
         else (Inl NotADirectoryError, s))"

text \<open>\<open>open(p, 'r')\<close> followed by reading the whole file.\<close>

definition read_file :: "path \<Rightarrow> world \<Rightarrow> error + string" where
  "read_file p s =
     (case files s (resolve s p) of
        Some c \<Rightarrow> Inr c
      | None \<Rightarrow> Inl (if resolve s p \<in> dirs s then IsADirectoryError else FileNotFoundError))"

text \<open>
  \<open>open(p, 'w')\<close>: an existing file is truncated, a new one needs its parent directory.
  The absolute path of the opened file is returned.
\<close>

definition open_write :: "path \<Rightarrow> world \<Rightarrow> (error + path) \<times> world" where
  "open_write p s =
     (let a = resolve s p
      in if files s a \<noteq> None then (Inr a, s\<lparr>files := (files s)(a \<mapsto> [])\<rparr>)
         else if a \<in> dirs s then (Inl IsADirectoryError, s)
         else if dirname a \<notin> dirs s then (Inl FileNotFoundError, s)
         else (Inr a, s\<lparr>files := (files s)(a \<mapsto> [])\<rparr>))"

subsection \<open>Random scratch names\<close>

definition letters :: string where
  "letters = ''abcdefghijklmnopqrstuvwxyzABCDEFGHIJKLMNOPQRSTUVWXYZ0123456789''"

text \<open>\<open>random.choice\<close>: the next random number selects a position of the sequence.\<close>

definition random_choice :: "string \<Rightarrow> world \<Rightarrow> char \<times> world" where
  "random_choice xs s =
     (xs ! (rng s (rng_pos s) mod length xs), s\<lparr>rng_pos := Suc (rng_pos s)\<rparr>)"

fun generate_random_string :: "nat \<Rightarrow> world \<Rightarrow> string \<times> world" where
  "generate_random_string 0 s = ([], s)"
| "generate_random_string (Suc n) s =
     (let (c, s1) = random_choice letters s;
          (cs, s2) = generate_random_string n s1
      in (c # cs, s2))"

subsection \<open>Running external programs\<close>

text \<open>
  \<open>subprocess.run(argv, check=...)\<close>: a missing executable raises \<open>FileNotFoundError\<close>
  before anything runs; with \<open>check\<close> a non-zero exit status raises
  \<open>CalledProcessError\<close> after the child has finished.
\<close>

definition subprocess_run :: "env \<Rightarrow> string list \<Rightarrow> bool \<Rightarrow> world \<Rightarrow> (error + int) \<times> world" where
  "subprocess_run E argv check s =
     (let s0 = s\<lparr>procs := procs s @ [(argv, check)]\<rparr>;
          (oc, fs) = program E argv (files s) (cwd s)
      in case oc of
           NotFound \<Rightarrow> (Inl FileNotFoundError, s0)
         | TimedOut \<Rightarrow> (Inl TimeoutExpired, s0\<lparr>files := fs\<rparr>)
         | Exited rc \<Rightarrow>
             if check \<and> rc \<noteq> 0 then (Inl (CalledProcessError rc), s0\<lparr>files := fs\<rparr>)
             else (Inr rc, s0\<lparr>files := fs\<rparr>))"

text \<open>
  The context manager around every \<open>subprocess.run\<close>: the three exceptions are caught
  and a diagnostic is printed; control continues after the \<open>with\<close> block. The printed
  line is kept up to the text of the exception object.
\<close>

definition subprocess_context ::
  "(world \<Rightarrow> (error + int) \<times> world) \<Rightarrow> world \<Rightarrow> (error + unit) \<times> world" where
  "subprocess_context body s =
     (case body s of
        (Inr _, s1) \<Rightarrow> (Inr (), s1)
      | (Inl FileNotFoundError, s1) \<Rightarrow>
          (Inr (), print ''Process failed because the executable could not be found.'' s1)
      | (Inl (CalledProcessError rc), s1) \<Rightarrow>
          (Inr (), print (''Process failed: did not return a successful code. Returned ''
                          @ show_int rc) s1)
      | (Inl TimeoutExpired, s1) \<Rightarrow> (Inr (), print ''Process timed out.'' s1)
      | (Inl e, s1) \<Rightarrow> (Inl e, s1))"

definition run_work_script :: "env \<Rightarrow> string \<Rightarrow> world \<Rightarrow> (error + unit) \<times> world" where
  "run_work_script E filename s =
     (let path_to_exec = path_join (source_dir E) ''work.sh''
      in subprocess_context (subprocess_run E [''bash'', path_to_exec, filename] True)
           (enter Preparation s))"

definition run_format_script ::
  "env \<Rightarrow> string \<Rightarrow> string option \<Rightarrow> world \<Rightarrow> (error + string \<times> string) \<times> world" where
  "run_format_script E filename sep s =
     (let sep1 = (case sep of None \<Rightarrow> ''space'' | Some x \<Rightarrow> x);
          path_to_exec = path_join (source_dir E) ''format_edgelist.py''
      in case subprocess_context
                (subprocess_run E [''python'', path_to_exec, filename, ''--sep'', sep1] False)
                (enter Formatting s) of
           (Inl e, s1) \<Rightarrow> (Inl e, s1)
         | (Inr _, s1) \<Rightarrow>
             (case (with_stem_tag filename ''_formatted'', with_stem_tag filename ''_key'') of
                (Some f, Some k) \<Rightarrow> (Inr (f, k), s1)
              | _ \<Rightarrow> (Inl ValueError, s1)))"

text \<open>
  The chi value is carried as the text that \<open>f"{chi}"\<close> yields; the formatting of floats
  is outside the model.
\<close>

definition run_clustering :: "env \<Rightarrow> string \<Rightarrow> string \<Rightarrow> int \<Rightarrow> world \<Rightarrow> (error + unit) \<times> world" where
  "run_clustering E filename chi seed s =
     subprocess_context
       (subprocess_run E
          [source_dir E @ ''/a.out'', ''2'', ''5'', ''2'', show_int seed, chi, filename] True)
       (enter Clustering s)"

subsection \<open>Remapping the partition\<close>

text \<open>
  The first loop of \<open>remap_partition_results\<close>: line \<open>i\<close> (counted from one) gives
  \<open>partitions[i] = int(line.strip())\<close>. The dictionary is kept as the list of its items
  in insertion order, which is the order \<open>partitions.items()\<close> yields.
\<close>

fun load_partitions :: "int \<Rightarrow> string list \<Rightarrow> error + (int \<times> int) list" where
  "load_partitions i [] = Inr []"
| "load_partitions i (l # ls) =
     (case py_int (strip l) of
        None \<Rightarrow> Inl ValueError
      | Some v \<Rightarrow>
          (case load_partitions (i + 1) ls of
             Inl e \<Rightarrow> Inl e
           | Inr ps \<Rightarrow> Inr ((i + 1, v) # ps)))"

text \<open>
  The second loop: \<open>a, b = line.split()\<close> needs exactly two tokens, both are converted
  with \<open>int\<close>, and \<open>mappings[b] = a\<close>.
\<close>

fun load_mappings :: "(int \<rightharpoonup> int) \<Rightarrow> string list \<Rightarrow> error + (int \<rightharpoonup> int)" where
  "load_mappings m [] = Inr m"
| "load_mappings m (l # ls) =
     (case split_ws l of
        [a, b] \<Rightarrow>
          (case py_int a of
             None \<Rightarrow> Inl ValueError
           | Some a1 \<Rightarrow>
               (case py_int b of
                  None \<Rightarrow> Inl ValueError
                | Some b1 \<Rightarrow> load_mappings (m(b1 \<mapsto> a1)) ls))
      | _ \<Rightarrow> Inl ValueError)"


text \<open>
  The third loop prints one line per item; a key missing from \<open>mappings\<close> raises
  \<open>KeyError\<close> and leaves the lines printed before it in the file.
\<close>

fun write_remapped :: "(int \<rightharpoonup> int) \<Rightarrow> (int \<times> int) list \<Rightarrow> (error + unit) \<times> string" where
  "write_remapped m [] = (Inr (), [])"
| "write_remapped m ((k, v) # ps) =
     (case m k of
        None \<Rightarrow> (Inl (KeyError k), [])
      | Some a \<Rightarrow>
          (let (r, out) = write_remapped m ps
           in (r, show_int a @ '' '' @ show_int v @ [LF] @ out)))"

definition remap_partition_results :: "string \<Rightarrow> string \<Rightarrow> world \<Rightarrow> (error + unit) \<times> world" where
  "remap_partition_results keyfile formatted_file s =
     (let s0 = enter Remap s;
          result_filename = ''partition_'' @ basename formatted_file
      in case read_file result_filename s0 of
           Inl e \<Rightarrow> (Inl e, s0)
         | Inr c \<Rightarrow>
       (case load_partitions 0 (file_lines c) of
           Inl e \<Rightarrow> (Inl e, s0)
         | Inr partitions \<Rightarrow>
       (case read_file keyfile s0 of
           Inl e \<Rightarrow> (Inl e, s0)
         | Inr k \<Rightarrow>
       (case load_mappings Map.empty (file_lines k) of
           Inl e \<Rightarrow> (Inl e, s0)
         | Inr mappings \<Rightarrow>
       (case open_write result_filename s0 of
           (Inl e, s1) \<Rightarrow> (Inl e, s1)
         | (Inr a, s1) \<Rightarrow>
             (let (r, out) = write_remapped mappings partitions
              in (r, s1\<lparr>files := (files s1)(a \<mapsto> out)\<rparr>)))))))"

subsection \<open>The scratch directory\<close>

text \<open>
  The two functions below are \<open>_setup_and_enter_scratch\<close> and
  \<open>_exit_and_cleanup_scratch\<close> of the script.
\<close>

definition setup_and_enter_scratch ::
  "path \<Rightarrow> path \<Rightarrow> world \<Rightarrow> (error + path \<times> path) \<times> world" where
  "setup_and_enter_scratch initial_working_directory input_file s =
     (let (r, s1) = generate_random_string 4 (enter Staging s);
          scratch_directory = path_join initial_working_directory (''gcm_cache_'' @ r)
      in case makedirs scratch_directory s1 of
           (Inl e, s2) \<Rightarrow> (Inl e, s2)
         | (Inr _, s2) \<Rightarrow>
             (let scratch_file = path_join scratch_directory (basename input_file)
              in case copy_file input_file scratch_file s2 of
                   (Inl e, s3) \<Rightarrow> (Inl e, s3)
                 | (Inr _, s3) \<Rightarrow>
                     (case chdir scratch_directory s3 of
                        (Inl e, s4) \<Rightarrow> (Inl e, s4)
                      | (Inr _, s4) \<Rightarrow> (Inr (scratch_directory, scratch_file), s4))))"

definition exit_and_cleanup_scratch ::
  "path \<Rightarrow> string \<Rightarrow> path \<Rightarrow> path \<Rightarrow> string \<Rightarrow> world \<Rightarrow> (error + unit) \<times> world" where
  "exit_and_cleanup_scratch output_dir output_file initial_working_dir scratch_directory
       formatted_file s =
     (let s0 = enter Cleanup s;
          result_filename = ''partition_'' @ basename formatted_file;
          output_filepath = path_join output_dir output_file;
          result_filepath = path_join scratch_directory result_filename
      in case (if path_exists s0 result_filepath
               then copy_file result_filepath output_filepath s0
               else (Inr (), print ''Error encountered, no result exists'' s0)) of
           (Inl e, s1) \<Rightarrow> (Inl e, s1)
         | (Inr _, s1) \<Rightarrow>
             (case chdir initial_working_dir s1 of
                (Inl e, s2) \<Rightarrow> (Inl e, s2)
              | (Inr _, s2) \<Rightarrow>
                  if path_exists s2 scratch_directory then rmtree scratch_directory s2
                  else (Inr (), s2)))"

subsection \<open>The pipeline\<close>

text \<open>
  The \<open>try\<close> block of \<open>gcm\<close>. Besides its result it returns the two local variables the
  \<open>finally\<close> block reads, \<open>scratch_directory\<close> and \<open>formatted_file\<close>; \<open>None\<close> means
  the variable was never assigned.
\<close>

definition gcm_try ::
  "env \<Rightarrow> path \<Rightarrow> path \<Rightarrow> string \<Rightarrow> int \<Rightarrow> string option \<Rightarrow> world
     \<Rightarrow> (error + unit) \<times> path option \<times> string option \<times> world" where
  "gcm_try E initial_working_directory input_file chi seed sep s =
     (case setup_and_enter_scratch initial_working_directory input_file s of
        (Inl e, s1) \<Rightarrow> (Inl e, None, None, s1)
      | (Inr (scratch_directory, scratch_file), s1) \<Rightarrow>
     (case run_format_script E (basename scratch_file) sep s1 of
        (Inl e, s2) \<Rightarrow> (Inl e, Some scratch_directory, None, s2)
      | (Inr (formatted_file, key_file), s2) \<Rightarrow>
     (case run_work_script E (basename formatted_file) s2 of
        (Inl e, s3) \<Rightarrow> (Inl e, Some scratch_directory, Some formatted_file, s3)
      | (Inr _, s3) \<Rightarrow>
     (case run_clustering E (basename formatted_file) chi seed s3 of
        (Inl e, s4) \<Rightarrow> (Inl e, Some scratch_directory, Some formatted_file, s4)
      | (Inr _, s4) \<Rightarrow>
     (case remap_partition_results key_file formatted_file s4 of
        (r, s5) \<Rightarrow> (r, Some scratch_directory, Some formatted_file, s5))))))"

text \<open>
  The \<open>finally\<close> block. The arguments of the call are evaluated from left to right, so an
  unassigned \<open>scratch_directory\<close> raises before \<open>_exit_and_cleanup_scratch\<close> is entered.
\<close>

definition gcm_finally ::
  "path \<Rightarrow> string \<Rightarrow> path \<Rightarrow> path option \<Rightarrow> string option \<Rightarrow> world \<Rightarrow> (error + unit) \<times> world" where
  "gcm_finally output_dir output_file initial_working_directory scratch_directory
       formatted_file s =
     (case scratch_directory of
        None \<Rightarrow> (Inl (UnboundLocalError ''scratch_directory''), s)
      | Some d \<Rightarrow>
          (case formatted_file of
             None \<Rightarrow> (Inl (UnboundLocalError ''formatted_file''), s)
           | Some f \<Rightarrow>
               exit_and_cleanup_scratch output_dir output_file initial_working_directory d f s))"

text \<open>
  \<open>gcm\<close>: an exception of the \<open>finally\<close> block replaces whatever the \<open>try\<close> block
  raised; otherwise the result of the \<open>try\<close> block stands.
\<close>

definition gcm ::
  "env \<Rightarrow> path \<Rightarrow> string \<Rightarrow> int \<Rightarrow> path option \<Rightarrow> string option \<Rightarrow> string option \<Rightarrow> world
     \<Rightarrow> (error + unit) \<times> world" where
  "gcm E input_file chi seed output_dir output_file sep s =
     (let initial_working_directory = cwd s;
          output_dir1 = (case output_dir of None \<Rightarrow> initial_working_directory | Some d \<Rightarrow> d);
          output_file1 = (case output_file of None \<Rightarrow> ''clustering_output.txt'' | Some f \<Rightarrow> f)
      in case gcm_try E initial_working_directory input_file chi seed sep s of
           (r, scratch_directory, formatted_file, s1) \<Rightarrow>
             (case gcm_finally output_dir1 output_file1 initial_working_directory
                     scratch_directory formatted_file s1 of
                (Inl e, s2) \<Rightarrow> (Inl e, s2)
              | (Inr _, s2) \<Rightarrow> (r, s2)))"

subsection \<open>Sample runs\<close>

text \<open>
  Concrete worlds and programs on which the theorems below are evaluated. The working
  directory is \<open>/w\<close> with the edge list \<open>g.txt\<close> and a subdirectory \<open>out\<close>; every
  random number is zero, so the scratch directory is \<open>/w/gcm_cache_aaaa\<close>. The sample
  formatter writes the formatted file and a given key file, \<open>work.sh\<close> does nothing, and
  the sample clustering binary writes a given partition and exits with a given status.
\<close>

definition text_of :: "string list \<Rightarrow> string" where
  "text_of ls = concat (map (\<lambda>l. l @ [LF]) ls)"

definition demo_world :: world where
  "demo_world =
     \<lparr>files = [''/w/g.txt'' \<mapsto> text_of [''7 8'', ''8 9'']],
      dirs = {''/w'', ''/w/out''},
      cwd = ''/w'',
      stdout = [],
      rng = (\<lambda>_. 0),
      rng_pos = 0,
      procs = [],
      trace = []\<rparr>"

definition demo_program ::
  "int \<Rightarrow> string \<Rightarrow> string \<Rightarrow> string list \<Rightarrow> (path \<rightharpoonup> string) \<Rightarrow> path
     \<Rightarrow> outcome \<times> (path \<rightharpoonup> string)" where
  "demo_program rc key part argv fs c =
     (if hd argv = ''python''
      then (Exited 0, fs(path_join c ''g_formatted.txt'' \<mapsto> text_of [''1 2'', ''2 3''],
                        path_join c ''g_key.txt'' \<mapsto> key))
      else if hd argv = ''bash'' then (Exited 0, fs)
      else (Exited rc, fs(path_join c (''partition_'' @ last argv) \<mapsto> part)))"

definition demo_env :: "int \<Rightarrow> string \<Rightarrow> string \<Rightarrow> env" where
  "demo_env rc key part = \<lparr>source_dir = ''/src'', program = demo_program rc key part\<rparr>"

text \<open>An environment in which every external program ends with the same outcome.\<close>

definition failing_env :: "outcome \<Rightarrow> env" where
  "failing_env oc = \<lparr>source_dir = ''/src'', program = (\<lambda>argv fs c. (oc, fs))\<rparr>"

text \<open>
  A world as the cleanup step meets it: the working directory is the scratch directory,
  which holds the given files.
\<close>

definition publish_world :: "(path \<rightharpoonup> string) \<Rightarrow> world" where
  "publish_world fs =
     \<lparr>files = fs,
      dirs = {''/w'', ''/w/gcm_cache_aaaa''},
      cwd = ''/w/gcm_cache_aaaa'',
      stdout = [],
      rng = (\<lambda>_. 0),
      rng_pos = 4,
      procs = [],
      trace = []\<rparr>"

text \<open>A world that holds only a key file and a partition, in the working directory.\<close>

definition remap_world :: "string \<Rightarrow> string \<Rightarrow> world" where
  "remap_world key part =
     \<lparr>files = [''/w/g_key.txt'' \<mapsto> key, ''/w/partition_g_formatted.txt'' \<mapsto> part],
      dirs = {''/w''},
      cwd = ''/w'',
      stdout = [],
      rng = (\<lambda>_. 0),
      rng_pos = 0,
      procs = [],
      trace = []\<rparr>"

section \<open>Properties\<close>

subsection \<open>Paths and names\<close>

lemma takeWhile_all: "\<forall>x\<in>set xs. P x \<Longrightarrow> takeWhile P xs = xs"
  by (induction xs) auto

lemma basename_no_slash: "CHR ''/'' \<notin> set (basename p)"
  by (auto simp: basename_def dest: set_takeWhileD)

lemma basename_id:
  assumes "CHR ''/'' \<notin> set p"
  shows "basename p = p"
proof -
  have "takeWhile (\<lambda>c. c \<noteq> CHR ''/'') (rev p) = rev p"
    by (rule takeWhile_all) (use assms in auto)
  then show ?thesis by (simp only: basename_def rev_rev_ident)
qed

lemma basename_append: "a = [] \<or> last a = CHR ''/'' \<Longrightarrow> basename (a @ b) = basename b"
proof (cases "a = []")
  case True
  then show ?thesis by simp
next
  case False
  assume "a = [] \<or> last a = CHR ''/''"
  with False have "hd (rev a) = CHR ''/''" "rev a \<noteq> []"
    by (simp_all add: hd_rev)
  then have "takeWhile (\<lambda>c. c \<noteq> CHR ''/'') (rev a) = []"
    by (cases "rev a") auto
  then show ?thesis
    by (simp add: basename_def takeWhile_append takeWhile_all)
qed

lemma basename_path_join: "basename (path_join a b) = basename b"
proof -
  have "basename (a @ ''/'' @ b) = basename b"
    using basename_append [of "a @ ''/''" b] by simp
  then show ?thesis
    by (simp add: path_join_def basename_append)
qed

lemma basename_basename: "basename (basename p) = basename p"
  by (simp add: basename_id basename_no_slash)

lemma path_suffix_chars: "set (path_suffix n) \<subseteq> insert (CHR ''.'') (set n)"
  by (auto simp: path_suffix_def Let_def dest: set_takeWhileD)

lemma path_stem_chars: "set (path_stem n) \<subseteq> set n"
  by (auto simp: path_stem_def dest: in_set_takeD)

lemma with_stem_tag_no_slash:
  assumes "with_stem_tag n tag = Some f" "CHR ''/'' \<notin> set n" "CHR ''/'' \<notin> set tag"
  shows "CHR ''/'' \<notin> set f"
  using assms path_suffix_chars [of n] path_stem_chars [of n]
  by (auto simp: with_stem_tag_def split: if_splits)

lemma with_stem_tag_named:
  "n \<noteq> [] \<Longrightarrow> n \<noteq> ''.'' \<Longrightarrow> with_stem_tag n tag = Some (path_stem n @ tag @ path_suffix n)"
  by (simp add: with_stem_tag_def)

lemma is_abs_path_join: "is_abs a \<Longrightarrow> is_abs (path_join a b)"
  by (cases a) (auto simp: path_join_def is_abs_def)

lemma path_join_abs: "is_abs b \<Longrightarrow> path_join a b = b"
  by (simp add: path_join_def)

lemma within_self: "within d d"
  by (simp add: within_def)

subsection \<open>Random names\<close>

lemma generate_random_string_state:
  "generate_random_string n s = (r, s') \<Longrightarrow> s' = s\<lparr>rng_pos := rng_pos s + n\<rparr>"
proof (induction n arbitrary: s r s')
  case 0
  then show ?case by simp
next
  case (Suc n)
  obtain cs t where g: "generate_random_string n (s\<lparr>rng_pos := Suc (rng_pos s)\<rparr>) = (cs, t)"
    by (cases "generate_random_string n (s\<lparr>rng_pos := Suc (rng_pos s)\<rparr>)") auto
  from Suc.IH [OF g] have "t = s\<lparr>rng_pos := Suc (rng_pos s + n)\<rparr>"
    by simp
  with Suc.prems g show ?case
    by (simp add: random_choice_def)
qed

subsection \<open>External steps never raise\<close>

lemma invoke_shape:
  "\<exists>fs out. subprocess_context (subprocess_run E argv check) s =
     (Inr (), s\<lparr>files := fs, stdout := stdout s @ out, procs := procs s @ [(argv, check)]\<rparr>)"
proof (cases "program E argv (files s) (cwd s)")
  case (Pair oc fs)
  show ?thesis
  proof (cases oc)
    case (Exited rc)
    show ?thesis
    proof (cases "check \<and> rc \<noteq> 0")
      case True
      have "subprocess_context (subprocess_run E argv check) s =
        (Inr (), s\<lparr>files := fs,
           stdout := stdout s @
             [''Process failed: did not return a successful code. Returned '' @ show_int rc],
           procs := procs s @ [(argv, check)]\<rparr>)"
        using Pair Exited True by (simp add: subprocess_context_def subprocess_run_def print_def)
      then show ?thesis by blast
    next
      case False
      have "subprocess_context (subprocess_run E argv check) s =
        (Inr (), s\<lparr>files := fs, stdout := stdout s @ [],
           procs := procs s @ [(argv, check)]\<rparr>)"
        using Pair Exited False by (auto simp: subprocess_context_def subprocess_run_def Let_def)
      then show ?thesis by blast
    qed
  next
    case NotFound
    have "subprocess_context (subprocess_run E argv check) s =
      (Inr (), s\<lparr>files := files s,
         stdout := stdout s @ [''Process failed because the executable could not be found.''],
         procs := procs s @ [(argv, check)]\<rparr>)"
      using Pair NotFound by (simp add: subprocess_context_def subprocess_run_def print_def)
    then show ?thesis by blast
  next
    case TimedOut
    have "subprocess_context (subprocess_run E argv check) s =
      (Inr (), s\<lparr>files := fs, stdout := stdout s @ [''Process timed out.''],
         procs := procs s @ [(argv, check)]\<rparr>)"
      using Pair TimedOut by (simp add: subprocess_context_def subprocess_run_def print_def)
    then show ?thesis by blast
  qed
qed

lemma run_work_script_shape:
  "\<exists>fs out. run_work_script E f s =
     (Inr (), (enter Preparation s)\<lparr>files := fs,
        stdout := stdout (enter Preparation s) @ out,
        procs := procs (enter Preparation s) @
          [([''bash'', path_join (source_dir E) ''work.sh'', f], True)]\<rparr>)"
  unfolding run_work_script_def Let_def by (rule invoke_shape)

lemma run_clustering_shape:
  "\<exists>fs out. run_clustering E f chi seed s =
     (Inr (), (enter Clustering s)\<lparr>files := fs,
        stdout := stdout (enter Clustering s) @ out,
        procs := procs (enter Clustering s) @
          [([source_dir E @ ''/a.out'', ''2'', ''5'', ''2'', show_int seed, chi, f], True)]\<rparr>)"
  unfolding run_clustering_def by (rule invoke_shape)

lemma run_format_script_shape:
  assumes "f \<noteq> []" "f \<noteq> ''.''"
  shows "\<exists>fs out. run_format_script E f sep s =
     (Inr (path_stem f @ ''_formatted'' @ path_suffix f, path_stem f @ ''_key'' @ path_suffix f),
      (enter Formatting s)\<lparr>files := fs,
        stdout := stdout (enter Formatting s) @ out,
        procs := procs (enter Formatting s) @
          [([''python'', path_join (source_dir E) ''format_edgelist.py'', f, ''--sep'',
             case sep of None \<Rightarrow> ''space'' | Some x \<Rightarrow> x], False)]\<rparr>)"
proof -
  obtain fs out where
    "subprocess_context
       (subprocess_run E [''python'', path_join (source_dir E) ''format_edgelist.py'', f,
          ''--sep'', case sep of None \<Rightarrow> ''space'' | Some x \<Rightarrow> x] False)
       (enter Formatting s) =
     (Inr (), (enter Formatting s)\<lparr>files := fs,
        stdout := stdout (enter Formatting s) @ out,
        procs := procs (enter Formatting s) @
          [([''python'', path_join (source_dir E) ''format_edgelist.py'', f, ''--sep'',
             case sep of None \<Rightarrow> ''space'' | Some x \<Rightarrow> x], False)]\<rparr>)"
    using invoke_shape by blast
  then have "run_format_script E f sep s =
     (Inr (path_stem f @ ''_formatted'' @ path_suffix f, path_stem f @ ''_key'' @ path_suffix f),
      (enter Formatting s)\<lparr>files := fs,
        stdout := stdout (enter Formatting s) @ out,
        procs := procs (enter Formatting s) @
          [([''python'', path_join (source_dir E) ''format_edgelist.py'', f, ''--sep'',
             case sep of None \<Rightarrow> ''space'' | Some x \<Rightarrow> x], False)]\<rparr>)"
    unfolding run_format_script_def Let_def by (simp add: with_stem_tag_named assms)
  then show ?thesis by blast
qed

subsection \<open>The three loops of the remapper\<close>

lemma load_partitions_items:
  "load_partitions i ls = Inr ps \<Longrightarrow>
     ps = map (\<lambda>(k, l). (k, the (py_int (strip l)))) (zip [i + 1..i + int (length ls)] ls)"
proof (induction ls arbitrary: i ps)
  case Nil
  then show ?case by simp
next
  case (Cons l ls)
  from Cons.prems obtain v qs where
    v: "py_int (strip l) = Some v" and qs: "load_partitions (i + 1) ls = Inr qs"
    and ps: "ps = (i + 1, v) # qs"
    by (auto split: option.splits sum.splits)
  have e: "i + int (length (l # ls)) = i + 1 + int (length ls)"
    by simp
  have up: "[i + 1..i + int (length (l # ls))] = (i + 1) # [i + 1 + 1..i + 1 + int (length ls)]"
    unfolding e by (rule upto_rec1) simp
  show ?case
    unfolding up ps using Cons.IH [OF qs] v by simp
qed

lemma load_partitions_ok:
  "(\<exists>ps. load_partitions i ls = Inr ps) \<longleftrightarrow> (\<forall>l\<in>set ls. py_int (strip l) \<noteq> None)"
proof (induction ls arbitrary: i)
  case Nil
  then show ?case by simp
next
  case (Cons l ls)
  show ?case
  proof (cases "py_int (strip l)")
    case None
    then show ?thesis by simp
  next
    case (Some v)
    show ?thesis
    proof (cases "load_partitions (i + 1) ls")
      case (Inl e)
      with Cons.IH [of "i + 1"] Some show ?thesis by auto
    next
      case (Inr qs)
      with Cons.IH [of "i + 1"] Some show ?thesis by auto
    qed
  qed
qed

lemma load_partitions_error: "load_partitions i ls = Inl e \<Longrightarrow> e = ValueError"
  by (induction ls arbitrary: i) (auto split: option.splits sum.splits)



lemma write_remapped_result:
  "fst (write_remapped m ps) =
     (case find (\<lambda>p. m (fst p) = None) ps of
        None \<Rightarrow> Inr ()
      | Some p \<Rightarrow> Inl (KeyError (fst p)))"
proof (induction ps)
  case Nil
  then show ?case by simp
next
  case (Cons p ps)
  obtain k v where "p = (k, v)" by (cases p)
  with Cons show ?case
    by (cases "m k") (simp_all add: split_beta)
qed

lemma write_remapped_output:
  "snd (write_remapped m ps) =
     concat (map (\<lambda>p. show_int (the (m (fst p))) @ '' '' @ show_int (snd p) @ [LF])
               (takeWhile (\<lambda>p. m (fst p) \<noteq> None) ps))"
proof (induction ps)
  case Nil
  then show ?case by simp
next
  case (Cons p ps)
  obtain k v where "p = (k, v)" by (cases p)
  with Cons show ?case
    by (cases "m k") (simp_all add: split_beta)
qed

lemma load_partitions_nth:
  "load_partitions i ls = Inr ps \<Longrightarrow> j < length ls \<Longrightarrow>
     length ps = length ls \<and> fst (ps ! j) = i + 1 + int j"
proof (induction ls arbitrary: i ps j)
  case Nil
  then show ?case by simp
next
  case (Cons l ls)
  from Cons.prems(1) obtain v qs where
    qs: "load_partitions (i + 1) ls = Inr qs" and ps: "ps = (i + 1, v) # qs"
    by (auto split: option.splits sum.splits)
  show ?case
  proof (cases j)
    case 0
    with Cons.prems qs ps Cons.IH [OF qs] show ?thesis
      by (cases ls) (auto split: option.splits sum.splits)
  next
    case (Suc j')
    with Cons.prems have "j' < length ls" by simp
    from Cons.IH [OF qs this] Suc ps show ?thesis by simp
  qed
qed

lemma load_partitions_length: "load_partitions i ls = Inr ps \<Longrightarrow> length ps = length ls"
  by (induction ls arbitrary: i ps) (auto split: option.splits sum.splits)

lemma write_remapped_cases:
  "fst (write_remapped m ps) = Inr () \<or> (\<exists>k. fst (write_remapped m ps) = Inl (KeyError k))"
  by (simp add: write_remapped_result split: option.splits)

lemma write_remapped_key_error:
  assumes lp: "load_partitions i0 ls = Inr ps"
  shows "fst (write_remapped m ps) = Inl (KeyError k) \<longleftrightarrow>
           i0 + 1 \<le> k \<and> k \<le> i0 + int (length ls) \<and> m k = None \<and>
           (\<forall>j. i0 + 1 \<le> j \<and> j < k \<longrightarrow> m j \<noteq> None)"
    (is "?L \<longleftrightarrow> ?R")
proof
  have len: "length ps = length ls"
    using lp by (rule load_partitions_length)
  have key: "fst (ps ! n) = i0 + 1 + int n" if "n < length ls" for n
    using load_partitions_nth [OF lp that] by simp
  {
    assume ?L
    then obtain p where f: "find (\<lambda>p. m (fst p) = None) ps = Some p" and k: "fst p = k"
      by (auto simp: write_remapped_result split: option.splits)
    from f obtain n where n: "n < length ps" "m (fst (ps ! n)) = None" "p = ps ! n"
      "\<forall>j<n. m (fst (ps ! j)) \<noteq> None"
      unfolding find_Some_iff by blast
    have kn: "k = i0 + 1 + int n"
      using n k key len by simp
    have "m j \<noteq> None" if "i0 + 1 \<le> j" "j < k" for j
    proof -
      have "nat (j - i0 - 1) < n" using that kn by simp
      with n(4) have "m (fst (ps ! nat (j - i0 - 1))) \<noteq> None" by blast
      moreover have "fst (ps ! nat (j - i0 - 1)) = j"
        using key [of "nat (j - i0 - 1)"] that kn n(1) len by simp
      ultimately show ?thesis by simp
    qed
    with kn n k len show ?R by auto
  }
  {
    assume r: ?R
    define n where "n = nat (k - i0 - 1)"
    have bounds: "0 \<le> k - i0 - 1" "k - i0 - 1 < int (length ls)"
      using r by auto
    then have nl: "n < length ls" and ni: "int n = k - i0 - 1"
      by (simp_all add: n_def nat_less_iff)
    have n: "n < length ps" "fst (ps ! n) = k"
      using key [OF nl] ni nl len by simp_all
    have "m (fst (ps ! j)) \<noteq> None" if "j < n" for j
    proof -
      have "j < length ls" using that nl by simp
      then have "fst (ps ! j) = i0 + 1 + int j" by (rule key)
      moreover have "i0 + 1 + int j < k" using that ni by simp
      ultimately show ?thesis using r by simp
    qed
    with n r have "find (\<lambda>p. m (fst p) = None) ps = Some (ps ! n)"
      unfolding find_Some_iff by blast
    with n show ?L
      by (simp add: write_remapped_result)
  }
qed

lemma resolve_enter [simp]: "resolve (enter g s) p = resolve s p"
  by (simp add: resolve_def enter_def)

lemma remap_loaded:
  assumes "files s (resolve s (''partition_'' @ basename ff)) = Some c"
    and "load_partitions 0 (file_lines c) = Inr ps"
    and "files s (resolve s kf) = Some k"
    and "load_mappings Map.empty (file_lines k) = Inr m"
  shows "remap_partition_results kf ff s =
    (fst (write_remapped m ps),
     (enter Remap s)\<lparr>files := (files s)(resolve s (''partition_'' @ basename ff) \<mapsto>
        snd (write_remapped m ps))\<rparr>)"
  using assms
  by (simp add: remap_partition_results_def read_file_def open_write_def Let_def enter_def
      resolve_def split_beta)

subsection \<open>Evaluating the sample runs\<close>

lemmas text_eval =
  text_of_def LF_def CR_def file_lines_def split_ws_def py_int_def strip_def is_space_def
  parse_nat_def is_digit_def digit_val_def show_int_def show_nat.simps digit_char_def

lemmas path_eval = resolve_def path_join_def is_abs_def basename_def

subsection \<open>Claims about the remapper\<close>

text \<open>
  C2 (as the code has it). Let the partition file hold \<open>N\<close> lines, each an integer, and let
  the key file load into \<open>m\<close> with an entry for every Dense ID \<open>1..N\<close>. Then
  \<open>remap_partition_results\<close> returns normally and the partition file is rewritten so that
  line \<open>i\<close> is the label \<open>m i\<close>, a space and the cluster label of line \<open>i\<close>, for
  \<open>i\<close> ascending from 1 to \<open>N\<close>. Labels are integers: the key file is read with
  \<open>int\<close> on both tokens.
\<close>

theorem remap_rewrites_in_dense_order:
  assumes c: "files s (resolve s (''partition_'' @ basename ff)) = Some c"
    and ints: "\<forall>l\<in>set (file_lines c). py_int (strip l) \<noteq> None"
    and k: "files s (resolve s kf) = Some k"
    and m: "load_mappings Map.empty (file_lines k) = Inr m"
    and dense: "\<forall>i\<in>{1..int (length (file_lines c))}. m i \<noteq> None"
  shows "fst (remap_partition_results kf ff s) = Inr () \<and>
         files (snd (remap_partition_results kf ff s)) (resolve s (''partition_'' @ basename ff)) =
           Some (text_of (map (\<lambda>(i, l). show_int (the (m i)) @ '' '' @
                                  show_int (the (py_int (strip l))))
                   (zip [1..int (length (file_lines c))] (file_lines c))))"
proof -
  from ints obtain ps where ps: "load_partitions 0 (file_lines c) = Inr ps"
    using load_partitions_ok [of 0 "file_lines c"] by blast
  have items: "ps = map (\<lambda>(k, l). (k, the (py_int (strip l))))
                 (zip [1..int (length (file_lines c))] (file_lines c))"
    using load_partitions_items [OF ps] by simp
  have present: "m (fst p) \<noteq> None" if "p \<in> set ps" for p
  proof -
    from that obtain i l where "p = (i, the (py_int (strip l)))"
      "(i, l) \<in> set (zip [1..int (length (file_lines c))] (file_lines c))"
      unfolding items by auto
    then have "fst p \<in> {1..int (length (file_lines c))}"
      by (auto dest: set_zip_leftD)
    with dense show ?thesis by blast
  qed
  then have none: "find (\<lambda>p. m (fst p) = None) ps = None"
    unfolding find_None_iff by blast
  have all: "takeWhile (\<lambda>p. m (fst p) \<noteq> None) ps = ps"
    by (rule takeWhile_all) (use present in blast)
  have out: "snd (write_remapped m ps) =
      text_of (map (\<lambda>(i, l). show_int (the (m i)) @ '' '' @ show_int (the (py_int (strip l))))
                 (zip [1..int (length (file_lines c))] (file_lines c)))"
    unfolding write_remapped_output all
    by (simp add: items text_of_def comp_def split_beta)
  have res: "fst (write_remapped m ps) = Inr ()"
    by (simp add: write_remapped_result none)
  show ?thesis
    unfolding remap_loaded [OF c ps k m] by (simp add: res out)
qed

theorem remap_rewrites_in_dense_order_witness:
  "fst (remap_partition_results ''g_key.txt'' ''g_formatted.txt''
          (remap_world (text_of [''10 1'', ''20 2'', ''30 3'']) (text_of [''0'', ''1'', ''0'']))) = Inr ()
   \<and> files (snd (remap_partition_results ''g_key.txt'' ''g_formatted.txt''
          (remap_world (text_of [''10 1'', ''20 2'', ''30 3'']) (text_of [''0'', ''1'', ''0'']))))
        ''/w/partition_g_formatted.txt'' = Some (text_of [''10 0'', ''20 1'', ''30 0''])"
proof -
  let ?s = "remap_world (text_of [''10 1'', ''20 2'', ''30 3'']) (text_of [''0'', ''1'', ''0''])"
  have r: "resolve ?s (''partition_'' @ basename ''g_formatted.txt'') = ''/w/partition_g_formatted.txt''"
    by (simp add: remap_world_def path_eval)
  have c: "files ?s (resolve ?s (''partition_'' @ basename ''g_formatted.txt'')) =
             Some (text_of [''0'', ''1'', ''0''])"
    unfolding r by (simp add: remap_world_def)
  have ls: "file_lines (text_of [''0'', ''1'', ''0'']) = [''0'', ''1'', ''0'']"
    by (simp add: text_eval)
  have ints: "\<forall>l\<in>set (file_lines (text_of [''0'', ''1'', ''0''])). py_int (strip l) \<noteq> None"
    unfolding ls by (simp add: text_eval)
  have k: "files ?s (resolve ?s ''g_key.txt'') = Some (text_of [''10 1'', ''20 2'', ''30 3''])"
    by (simp add: remap_world_def path_eval)
  have m: "load_mappings Map.empty (file_lines (text_of [''10 1'', ''20 2'', ''30 3''])) =
             Inr [1 \<mapsto> 10, 2 \<mapsto> 20, 3 \<mapsto> 30]"
    by (simp add: text_eval)
  have dense: "\<forall>i\<in>{1..int (length (file_lines (text_of [''0'', ''1'', ''0''])))}.
                 [(1::int) \<mapsto> 10, 2 \<mapsto> 20, 3 \<mapsto> (30::int)] i \<noteq> None"
    unfolding ls by auto
  have out: "text_of (map (\<lambda>(i, l). show_int (the ([(1::int) \<mapsto> 10, 2 \<mapsto> 20, 3 \<mapsto> (30::int)] i)) @ '' '' @
                                  show_int (the (py_int (strip l))))
                   (zip [1..int (length (file_lines (text_of [''0'', ''1'', ''0''])))]
                      (file_lines (text_of [''0'', ''1'', ''0''])))) =
             text_of [''10 0'', ''20 1'', ''30 0'']"
  proof -
    have z: "zip [1..int (length [''0'', ''1'', ''0''])] [''0'', ''1'', ''0''] =
               [(1, ''0''), (2, ''1''), (3, ''0'')]"
      by (simp add: upto_rec1)
    show ?thesis
      unfolding ls z by (simp add: text_eval)
  qed
  show ?thesis
    using remap_rewrites_in_dense_order [OF c ints k m dense] unfolding out r by simp
qed

text \<open>
  The example of C2 as the spec gives it, with the labels \<open>A\<close>, \<open>B\<close>, \<open>C\<close>: reading
  the key file raises \<open>ValueError\<close> and the partition file is left as it was.
\<close>

theorem remap_symbolic_labels_counterexample:
  "remap_partition_results ''g_key.txt'' ''g_formatted.txt''
     (remap_world (text_of [''A 1'', ''B 2'', ''C 3'']) (text_of [''0'', ''1'', ''0''])) =
   (Inl ValueError,
    enter Remap (remap_world (text_of [''A 1'', ''B 2'', ''C 3'']) (text_of [''0'', ''1'', ''0''])))"
proof -
  let ?s = "remap_world (text_of [''A 1'', ''B 2'', ''C 3'']) (text_of [''0'', ''1'', ''0''])"
  have c: "read_file (''partition_'' @ basename ''g_formatted.txt'') (enter Remap ?s) =
             Inr (text_of [''0'', ''1'', ''0''])"
    by (simp add: read_file_def remap_world_def path_eval enter_def)
  have p: "load_partitions 0 (file_lines (text_of [''0'', ''1'', ''0''])) = Inr [(1, 0), (2, 1), (3, 0)]"
    by (simp add: text_eval)
  have k: "read_file ''g_key.txt'' (enter Remap ?s) = Inr (text_of [''A 1'', ''B 2'', ''C 3''])"
    by (simp add: read_file_def remap_world_def path_eval enter_def)
  have m: "load_mappings Map.empty (file_lines (text_of [''A 1'', ''B 2'', ''C 3''])) = Inl ValueError"
    by (simp add: text_eval)
  show ?thesis
    unfolding remap_partition_results_def Let_def c by (simp add: p k m)
qed




lemma write_remapped_all_present:
  assumes lp: "load_partitions i0 ls = Inr ps"
  shows "fst (write_remapped m ps) = Inr () \<longleftrightarrow>
           (\<forall>i. i0 + 1 \<le> i \<and> i \<le> i0 + int (length ls) \<longrightarrow> m i \<noteq> None)"
proof
  have len: "length ps = length ls"
    using lp by (rule load_partitions_length)
  have key: "fst (ps ! n) = i0 + 1 + int n" if "n < length ls" for n
    using load_partitions_nth [OF lp that] by simp
  {
    assume "fst (write_remapped m ps) = Inr ()"
    then have none: "find (\<lambda>p. m (fst p) = None) ps = None"
      by (auto simp: write_remapped_result split: option.splits)
    show "\<forall>i. i0 + 1 \<le> i \<and> i \<le> i0 + int (length ls) \<longrightarrow> m i \<noteq> None"
    proof (intro allI impI)
      fix i assume i: "i0 + 1 \<le> i \<and> i \<le> i0 + int (length ls)"
      then have n: "nat (i - i0 - 1) < length ls" "int (nat (i - i0 - 1)) = i - i0 - 1"
        by (simp_all add: nat_less_iff)
      then have "ps ! nat (i - i0 - 1) \<in> set ps" using len by simp
      moreover from none have "\<forall>p\<in>set ps. m (fst p) \<noteq> None"
        by (auto simp: find_None_iff)
      ultimately have "m (fst (ps ! nat (i - i0 - 1))) \<noteq> None"
        by simp
      with key [OF n(1)] n(2) show "m i \<noteq> None" by simp
    qed
  }
  {
    assume all: "\<forall>i. i0 + 1 \<le> i \<and> i \<le> i0 + int (length ls) \<longrightarrow> m i \<noteq> None"
    show "fst (write_remapped m ps) = Inr ()"
      using write_remapped_cases [of m ps] write_remapped_key_error [OF lp, of m] all
      by blast
  }
qed

text \<open>
  C4. Let every line of the partition file be an integer and let the key file load into
  \<open>m\<close>. The remapper raises \<open>KeyError i\<close> (the spec's \<open>UnknownDenseID\<close>) exactly for
  the first line \<open>i\<close> whose Dense ID has no entry in \<open>m\<close>; it raises some \<open>KeyError\<close>
  whenever a Dense ID of \<open>1..N\<close> is missing, and none when all are present.
\<close>

theorem remap_unknown_dense_id:
  assumes c: "files s (resolve s (''partition_'' @ basename ff)) = Some c"
    and ints: "\<forall>l\<in>set (file_lines c). py_int (strip l) \<noteq> None"
    and k: "files s (resolve s kf) = Some k"
    and m: "load_mappings Map.empty (file_lines k) = Inr m"
  shows "(\<forall>i. fst (remap_partition_results kf ff s) = Inl (KeyError i) \<longleftrightarrow>
              1 \<le> i \<and> i \<le> int (length (file_lines c)) \<and> m i = None \<and>
              (\<forall>j. 1 \<le> j \<and> j < i \<longrightarrow> m j \<noteq> None)) \<and>
         ((\<exists>i\<in>{1..int (length (file_lines c))}. m i = None) \<longrightarrow>
              (\<exists>i. fst (remap_partition_results kf ff s) = Inl (KeyError i))) \<and>
         ((\<forall>i\<in>{1..int (length (file_lines c))}. m i \<noteq> None) \<longrightarrow>
              fst (remap_partition_results kf ff s) = Inr ())"
proof -
  from ints obtain ps where ps: "load_partitions 0 (file_lines c) = Inr ps"
    using load_partitions_ok [of 0 "file_lines c"] by blast
  have r: "fst (remap_partition_results kf ff s) = fst (write_remapped m ps)"
    unfolding remap_loaded [OF c ps k m] by simp
  have a: "fst (write_remapped m ps) = Inl (KeyError i) \<longleftrightarrow>
             1 \<le> i \<and> i \<le> int (length (file_lines c)) \<and> m i = None \<and>
             (\<forall>j. 1 \<le> j \<and> j < i \<longrightarrow> m j \<noteq> None)" for i
    using write_remapped_key_error [OF ps, of m i] by simp
  have b: "fst (write_remapped m ps) = Inr () \<longleftrightarrow>
             (\<forall>i\<in>{1..int (length (file_lines c))}. m i \<noteq> None)"
    using write_remapped_all_present [OF ps, of m] by auto
  have d: "\<exists>i. fst (write_remapped m ps) = Inl (KeyError i)"
    if "\<exists>i\<in>{1..int (length (file_lines c))}. m i = None"
    using that b write_remapped_cases [of m ps] by blast
  show ?thesis
    unfolding r using a b d by blast
qed

theorem remap_unknown_dense_id_witness:
  "fst (remap_partition_results ''g_key.txt'' ''g_formatted.txt''
          (remap_world (text_of [''10 1'', ''20 2'', ''30 3''])
             (text_of [''0'', ''1'', ''0'', ''1'']))) = Inl (KeyError 4)
   \<and> fst (remap_partition_results ''g_key.txt'' ''g_formatted.txt''
          (remap_world (text_of [''10 1'', ''20 2'', ''30 3''])
             (text_of [''0'', ''1'', ''0'']))) = Inr ()"
proof -
  let ?k = "text_of [''10 1'', ''20 2'', ''30 3'']"
  let ?m = "[(1::int) \<mapsto> 10, 2 \<mapsto> 20, 3 \<mapsto> (30::int)]"
  let ?s4 = "remap_world ?k (text_of [''0'', ''1'', ''0'', ''1''])"
  let ?s3 = "remap_world ?k (text_of [''0'', ''1'', ''0''])"
  have m: "load_mappings Map.empty (file_lines ?k) = Inr ?m"
    by (simp add: text_eval)
  have ls4: "file_lines (text_of [''0'', ''1'', ''0'', ''1'']) = [''0'', ''1'', ''0'', ''1'']"
    by (simp add: text_eval)
  have ls3: "file_lines (text_of [''0'', ''1'', ''0'']) = [''0'', ''1'', ''0'']"
    by (simp add: text_eval)
  have c4: "files ?s4 (resolve ?s4 (''partition_'' @ basename ''g_formatted.txt'')) =
              Some (text_of [''0'', ''1'', ''0'', ''1''])"
    by (simp add: remap_world_def path_eval)
  have c3: "files ?s3 (resolve ?s3 (''partition_'' @ basename ''g_formatted.txt'')) =
              Some (text_of [''0'', ''1'', ''0''])"
    by (simp add: remap_world_def path_eval)
  have i4: "\<forall>l\<in>set (file_lines (text_of [''0'', ''1'', ''0'', ''1''])). py_int (strip l) \<noteq> None"
    unfolding ls4 by (simp add: text_eval)
  have i3: "\<forall>l\<in>set (file_lines (text_of [''0'', ''1'', ''0''])). py_int (strip l) \<noteq> None"
    unfolding ls3 by (simp add: text_eval)
  have k4: "files ?s4 (resolve ?s4 ''g_key.txt'') = Some ?k"
    by (simp add: remap_world_def path_eval)
  have k3: "files ?s3 (resolve ?s3 ''g_key.txt'') = Some ?k"
    by (simp add: remap_world_def path_eval)
  have least: "(1::int) \<le> 4 \<and> 4 \<le> int (length (file_lines (text_of [''0'', ''1'', ''0'', ''1''])))
      \<and> ?m 4 = None \<and> (\<forall>j. 1 \<le> j \<and> j < 4 \<longrightarrow> ?m j \<noteq> None)"
    unfolding ls4 by auto
  have all: "\<forall>i\<in>{1..int (length (file_lines (text_of [''0'', ''1'', ''0''])))}. ?m i \<noteq> None"
    unfolding ls3 by auto
  from remap_unknown_dense_id [OF c4 i4 k4 m] least
  have "fst (remap_partition_results ''g_key.txt'' ''g_formatted.txt'' ?s4) = Inl (KeyError 4)"
    by blast
  moreover from remap_unknown_dense_id [OF c3 i3 k3 m] all
  have "fst (remap_partition_results ''g_key.txt'' ''g_formatted.txt'' ?s3) = Inr ()"
    by blast
  ultimately show ?thesis by blast
qed

subsection \<open>File-system primitives\<close>

lemma makedirs_Inr:
  "makedirs p s = (Inr u, s') \<Longrightarrow>
     s' = s\<lparr>dirs := insert (resolve s p) (dirs s)\<rparr> \<and> resolve s p \<notin> dirs s"
  by (auto simp: makedirs_def Let_def split: if_splits)

lemma makedirs_Inl: "makedirs p s = (Inl e, s') \<Longrightarrow> s' = s \<and> e = FileExistsError"
  by (auto simp: makedirs_def Let_def split: if_splits)

lemma copy_file_Inr:
  "copy_file src dst s = (Inr u, s') \<Longrightarrow>
     (\<exists>b c. s' = s\<lparr>files := (files s)(b \<mapsto> c)\<rparr>) \<and>
     basename (resolve s src) \<notin> {[], ''.'', ''..''}"
  by (auto simp: copy_file_def Let_def split: option.splits if_splits)

lemma copy_file_Inl:
  "copy_file src dst s = (Inl e, s') \<Longrightarrow>
     s' = s \<and> e \<in> {FileNotFoundError, IsADirectoryError, SameFileError}"
  by (auto simp: copy_file_def Let_def split: option.splits if_splits)

lemma chdir_Inr:
  "chdir p s = (Inr u, s') \<Longrightarrow> s' = s\<lparr>cwd := resolve s p\<rparr> \<and> resolve s p \<in> dirs s"
  by (auto simp: chdir_def Let_def split: if_splits)

lemma chdir_Inl:
  "chdir p s = (Inl e, s') \<Longrightarrow> s' = s \<and> e \<in> {NotADirectoryError, FileNotFoundError}"
  by (auto simp: chdir_def Let_def split: if_splits)

lemma rmtree_Inr:
  "rmtree p s = (Inr u, s') \<Longrightarrow>
     s' = s\<lparr>dirs := {d \<in> dirs s. \<not> within (resolve s p) d},
            files := (\<lambda>q. if within (resolve s p) q then None else files s q)\<rparr> \<and>
     resolve s p \<in> dirs s"
  by (auto simp: rmtree_def Let_def split: if_splits)

lemma rmtree_Inl: "rmtree p s = (Inl e, s') \<Longrightarrow> s' = s \<and> e = NotADirectoryError"
  by (auto simp: rmtree_def Let_def split: if_splits)

subsection \<open>Staging\<close>

lemma setup_unfold:
  assumes "generate_random_string 4 (enter Staging s) = (r, t)"
  shows "setup_and_enter_scratch iwd inp s =
    (case makedirs (path_join iwd (''gcm_cache_'' @ r)) t of
       (Inl e, s2) \<Rightarrow> (Inl e, s2)
     | (Inr _, s2) \<Rightarrow>
         (case copy_file inp (path_join (path_join iwd (''gcm_cache_'' @ r)) (basename inp)) s2 of
            (Inl e, s3) \<Rightarrow> (Inl e, s3)
          | (Inr _, s3) \<Rightarrow>
              (case chdir (path_join iwd (''gcm_cache_'' @ r)) s3 of
                 (Inl e, s4) \<Rightarrow> (Inl e, s4)
               | (Inr _, s4) \<Rightarrow>
                   (Inr (path_join iwd (''gcm_cache_'' @ r),
                         path_join (path_join iwd (''gcm_cache_'' @ r)) (basename inp)), s4))))"
  unfolding setup_and_enter_scratch_def Let_def assms by simp

lemma setup_success:
  assumes st: "setup_and_enter_scratch iwd inp s = (Inr (sd, sf), s1)"
  shows "sf = path_join sd (basename inp) \<and>
         resolve s sd \<notin> dirs s \<and>
         dirs s1 = insert (resolve s sd) (dirs s) \<and>
         cwd s1 = resolve s sd \<and>
         trace s1 = trace s @ [Staging] \<and>
         procs s1 = procs s \<and>
         stdout s1 = stdout s \<and>
         basename inp \<noteq> [] \<and> basename inp \<noteq> ''.'' \<and>
         (\<exists>r. sd = path_join iwd (''gcm_cache_'' @ r))"
proof -
  obtain r t where g: "generate_random_string 4 (enter Staging s) = (r, t)"
    by (cases "generate_random_string 4 (enter Staging s)") auto
  have t: "t = s\<lparr>rng_pos := rng_pos s + 4, trace := trace s @ [Staging]\<rparr>"
    using generate_random_string_state [OF g] by (simp add: enter_def)
  define d where "d = path_join iwd (''gcm_cache_'' @ r)"
  note u = setup_unfold [OF g, of iwd inp, folded d_def]
  obtain a t2 where mk: "makedirs d t = (a, t2)" by (cases "makedirs d t") auto
  obtain b t3 where cp: "copy_file inp (path_join d (basename inp)) t2 = (b, t3)"
    by (cases "copy_file inp (path_join d (basename inp)) t2") auto
  obtain c t4 where ch: "chdir d t3 = (c, t4)" by (cases "chdir d t3") auto
  from st have a: "a = Inr ()"
    by (cases a) (auto simp: u mk)
  from st have b: "b = Inr ()"
    by (cases b) (auto simp: u mk a cp)
  from st have c: "c = Inr ()"
    by (cases c) (auto simp: u mk a cp b ch)
  from st have res: "sd = d" "sf = path_join d (basename inp)" "s1 = t4"
    by (auto simp: u mk a cp b ch c)
  from makedirs_Inr [OF mk [unfolded a]]
  have t2: "t2 = t\<lparr>dirs := insert (resolve t d) (dirs t)\<rparr>" and new: "resolve t d \<notin> dirs t"
    by simp_all
  from copy_file_Inr [OF cp [unfolded b]] obtain p q where
    t3: "t3 = t2\<lparr>files := (files t2)(p \<mapsto> q)\<rparr>"
    and nm: "basename (resolve t2 inp) \<notin> {[], ''.'', ''..''}"
    by blast
  from chdir_Inr [OF ch [unfolded c]] have t4: "t4 = t3\<lparr>cwd := resolve t3 d\<rparr>"
    by simp
  have rs: "resolve t d = resolve s d" "resolve t3 d = resolve s d"
    by (simp_all add: resolve_def t t2 t3)
  have new': "resolve s d \<notin> dirs s"
    using new unfolding rs(1) by (simp add: t)
  have s1: "s1 = s\<lparr>rng_pos := rng_pos s + 4, trace := trace s @ [Staging],
                dirs := insert (resolve s d) (dirs s), files := (files s)(p \<mapsto> q),
                cwd := resolve s d\<rparr>"
    unfolding res(3) t4 t3 t2 by (simp add: t resolve_def)
  have nm': "basename inp \<noteq> [] \<and> basename inp \<noteq> ''.''"
    using nm by (simp add: resolve_def basename_path_join)
  have ex: "\<exists>r. d = path_join iwd (''gcm_cache_'' @ r)"
    using d_def by blast
  show ?thesis
    unfolding res(1,2) using new' nm' ex by (simp add: s1)
qed

lemma setup_failure:
  assumes st: "setup_and_enter_scratch iwd inp s = (Inl e, s1)"
  shows "trace s1 = trace s @ [Staging] \<and> stdout s1 = stdout s \<and> cwd s1 = cwd s \<and>
         procs s1 = procs s \<and>
         e \<in> {FileExistsError, FileNotFoundError, IsADirectoryError, NotADirectoryError,
               SameFileError}"
proof -
  obtain r t where g: "generate_random_string 4 (enter Staging s) = (r, t)"
    by (cases "generate_random_string 4 (enter Staging s)") auto
  have t: "t = s\<lparr>rng_pos := rng_pos s + 4, trace := trace s @ [Staging]\<rparr>"
    using generate_random_string_state [OF g] by (simp add: enter_def)
  define d where "d = path_join iwd (''gcm_cache_'' @ r)"
  note u = setup_unfold [OF g, of iwd inp, folded d_def]
  obtain a t2 where mk: "makedirs d t = (a, t2)" by (cases "makedirs d t") auto
  show ?thesis
  proof (cases a)
    case (Inl e1)
    with st have "s1 = t2" "e = e1"
      by (auto simp: u mk)
    with makedirs_Inl [OF mk [unfolded Inl]] show ?thesis
      by (auto simp: t)
  next
    case a: (Inr u1)
    from makedirs_Inr [OF mk [unfolded a]]
    have t2: "t2 = t\<lparr>dirs := insert (resolve t d) (dirs t)\<rparr>" by simp
    obtain b t3 where cp: "copy_file inp (path_join d (basename inp)) t2 = (b, t3)"
      by (cases "copy_file inp (path_join d (basename inp)) t2") auto
    show ?thesis
    proof (cases b)
      case (Inl e2)
      with st have "s1 = t3" "e = e2"
        by (auto simp: u mk a cp)
      with copy_file_Inl [OF cp [unfolded Inl]] show ?thesis
        by (auto simp: t t2)
    next
      case b: (Inr u2)
      from copy_file_Inr [OF cp [unfolded b]] obtain p q where
        t3: "t3 = t2\<lparr>files := (files t2)(p \<mapsto> q)\<rparr>" by blast
      obtain c t4 where ch: "chdir d t3 = (c, t4)" by (cases "chdir d t3") auto
      show ?thesis
      proof (cases c)
        case (Inl e3)
        with st have "s1 = t4" "e = e3"
          by (auto simp: u mk a cp b ch)
        with chdir_Inl [OF ch [unfolded Inl]] show ?thesis
          by (auto simp: t t2 t3)
      next
        case (Inr u3)
        with st show ?thesis
          by (simp add: u mk a cp b ch)
      qed
    qed
  qed
qed

subsection \<open>The stages after staging\<close>

lemma run_format_script_frame:
  assumes "n \<noteq> []" "n \<noteq> ''.''"
  shows "fst (run_format_script E n sep s) =
           Inr (path_stem n @ ''_formatted'' @ path_suffix n, path_stem n @ ''_key'' @ path_suffix n) \<and>
         dirs (snd (run_format_script E n sep s)) = dirs s \<and>
         cwd (snd (run_format_script E n sep s)) = cwd s \<and>
         trace (snd (run_format_script E n sep s)) = trace s @ [Formatting] \<and>
         procs (snd (run_format_script E n sep s)) = procs s @
           [([''python'', path_join (source_dir E) ''format_edgelist.py'', n, ''--sep'',
              case sep of None \<Rightarrow> ''space'' | Some x \<Rightarrow> x], False)] \<and>
         (\<exists>out. stdout (snd (run_format_script E n sep s)) = stdout s @ out)"
proof -
  from run_format_script_shape [OF assms, of E sep s] obtain fs out where
    "run_format_script E n sep s =
       (Inr (path_stem n @ ''_formatted'' @ path_suffix n, path_stem n @ ''_key'' @ path_suffix n),
        (enter Formatting s)\<lparr>files := fs,
          stdout := stdout (enter Formatting s) @ out,
          procs := procs (enter Formatting s) @
            [([''python'', path_join (source_dir E) ''format_edgelist.py'', n, ''--sep'',
               case sep of None \<Rightarrow> ''space'' | Some x \<Rightarrow> x], False)]\<rparr>)"
    by blast
  then show ?thesis by (simp add: enter_def)
qed

lemma run_work_script_frame:
  "fst (run_work_script E f s) = Inr () \<and>
   dirs (snd (run_work_script E f s)) = dirs s \<and>
   cwd (snd (run_work_script E f s)) = cwd s \<and>
   trace (snd (run_work_script E f s)) = trace s @ [Preparation] \<and>
   procs (snd (run_work_script E f s)) = procs s @
     [([''bash'', path_join (source_dir E) ''work.sh'', f], True)] \<and>
   (\<exists>out. stdout (snd (run_work_script E f s)) = stdout s @ out)"
proof -
  from run_work_script_shape [of E f s] obtain fs out where
    "run_work_script E f s =
       (Inr (), (enter Preparation s)\<lparr>files := fs,
          stdout := stdout (enter Preparation s) @ out,
          procs := procs (enter Preparation s) @
            [([''bash'', path_join (source_dir E) ''work.sh'', f], True)]\<rparr>)"
    by blast
  then show ?thesis by (simp add: enter_def)
qed

lemma run_clustering_frame:
  "fst (run_clustering E f chi seed s) = Inr () \<and>
   dirs (snd (run_clustering E f chi seed s)) = dirs s \<and>
   cwd (snd (run_clustering E f chi seed s)) = cwd s \<and>
   trace (snd (run_clustering E f chi seed s)) = trace s @ [Clustering] \<and>
   procs (snd (run_clustering E f chi seed s)) = procs s @
     [([source_dir E @ ''/a.out'', ''2'', ''5'', ''2'', show_int seed, chi, f], True)] \<and>
   (\<exists>out. stdout (snd (run_clustering E f chi seed s)) = stdout s @ out)"
proof -
  from run_clustering_shape [of E f chi seed s] obtain fs out where
    "run_clustering E f chi seed s =
       (Inr (), (enter Clustering s)\<lparr>files := fs,
          stdout := stdout (enter Clustering s) @ out,
          procs := procs (enter Clustering s) @
            [([source_dir E @ ''/a.out'', ''2'', ''5'', ''2'', show_int seed, chi, f], True)]\<rparr>)"
    by blast
  then show ?thesis by (simp add: enter_def)
qed

lemma open_write_frame:
  "open_write p s = (r, s') \<Longrightarrow>
     dirs s' = dirs s \<and> cwd s' = cwd s \<and> procs s' = procs s \<and> stdout s' = stdout s \<and>
     trace s' = trace s"
  by (auto simp: open_write_def Let_def split: if_splits)

lemma remap_frame:
  "dirs (snd (remap_partition_results kf ff s)) = dirs s \<and>
   cwd (snd (remap_partition_results kf ff s)) = cwd s \<and>
   procs (snd (remap_partition_results kf ff s)) = procs s \<and>
   stdout (snd (remap_partition_results kf ff s)) = stdout s \<and>
   trace (snd (remap_partition_results kf ff s)) = trace s @ [Remap]"
proof -
  obtain r t where ow: "open_write (''partition_'' @ basename ff) (enter Remap s) = (r, t)"
    by (cases "open_write (''partition_'' @ basename ff) (enter Remap s)") auto
  from open_write_frame [OF ow] have t: "dirs t = dirs s" "cwd t = cwd s" "procs t = procs s"
    "stdout t = stdout s" "trace t = trace s @ [Remap]"
    by (simp_all add: enter_def)
  have e: "dirs (enter Remap s) = dirs s" "cwd (enter Remap s) = cwd s"
    "procs (enter Remap s) = procs s" "stdout (enter Remap s) = stdout s"
    "trace (enter Remap s) = trace s @ [Remap]"
    by (simp_all add: enter_def)
  show ?thesis
    unfolding remap_partition_results_def Let_def ow
    by (simp add: t e split: sum.splits prod.splits)
qed

lemma gcm_try_staged:
  fixes E :: env and sep :: "string option" and chi :: string and seed :: int
  assumes st: "setup_and_enter_scratch iwd inp s = (Inr (sd, sf), s1)"
  defines "n \<equiv> basename inp"
  defines "ff \<equiv> path_stem n @ ''_formatted'' @ path_suffix n"
    and "kf \<equiv> path_stem n @ ''_key'' @ path_suffix n"
  defines "s2 \<equiv> snd (run_format_script E n sep s1)"
  defines "s3 \<equiv> snd (run_work_script E ff s2)"
  defines "s4 \<equiv> snd (run_clustering E ff chi seed s3)"
  shows "gcm_try E iwd inp chi seed sep s =
           (fst (remap_partition_results kf ff s4), Some sd, Some ff,
            snd (remap_partition_results kf ff s4))"
    and "basename ff = ff"
proof -
  from setup_success [OF st] have sf: "sf = path_join sd (basename inp)"
    and nm: "n \<noteq> []" "n \<noteq> ''.''"
    by (simp_all add: n_def)
  have bn: "basename sf = n"
    by (simp add: sf basename_path_join basename_basename n_def)
  have "with_stem_tag n ''_formatted'' = Some ff"
    using nm by (simp add: with_stem_tag_named ff_def)
  moreover have "CHR ''/'' \<notin> set n"
    by (simp add: n_def basename_no_slash)
  ultimately have "CHR ''/'' \<notin> set ff"
    by (rule with_stem_tag_no_slash) simp
  then show bf: "basename ff = ff"
    by (rule basename_id)
  have f: "run_format_script E n sep s1 = (Inr (ff, kf), s2)"
    using run_format_script_frame [OF nm, of E sep s1]
    by (simp add: s2_def ff_def kf_def prod_eq_iff)
  have w: "run_work_script E ff s2 = (Inr (), s3)"
    using run_work_script_frame [of E ff s2] by (simp add: s3_def prod_eq_iff)
  have c: "run_clustering E ff chi seed s3 = (Inr (), s4)"
    using run_clustering_frame [of E ff chi seed s3] by (simp add: s4_def prod_eq_iff)
  show "gcm_try E iwd inp chi seed sep s =
           (fst (remap_partition_results kf ff s4), Some sd, Some ff,
            snd (remap_partition_results kf ff s4))"
    unfolding gcm_try_def st by (simp add: bn f bf w c split_beta)
qed

subsection \<open>Cleanup\<close>

lemma cleanup_unfold:
  "exit_and_cleanup_scratch od ofl iwd sd ff s =
    (case (if path_exists (enter Cleanup s) (path_join sd (''partition_'' @ basename ff))
           then copy_file (path_join sd (''partition_'' @ basename ff)) (path_join od ofl)
                  (enter Cleanup s)
           else (Inr (), print ''Error encountered, no result exists'' (enter Cleanup s))) of
       (Inl e, s1) \<Rightarrow> (Inl e, s1)
     | (Inr _, s1) \<Rightarrow>
         (case chdir iwd s1 of
            (Inl e, s2) \<Rightarrow> (Inl e, s2)
          | (Inr _, s2) \<Rightarrow>
              if path_exists s2 sd then rmtree sd s2 else (Inr (), s2)))"
  unfolding exit_and_cleanup_scratch_def Let_def by simp

lemma publish_frame:
  assumes "(if c then copy_file a b s0 else (Inr (), print msg s0)) = (r, t1)"
  shows "dirs t1 = dirs s0 \<and> cwd t1 = cwd s0 \<and> trace t1 = trace s0 \<and> procs t1 = procs s0 \<and>
         (\<exists>out. stdout t1 = stdout s0 @ out)"
proof (cases c)
  case False
  with assms show ?thesis by (auto simp: print_def)
next
  case True
  with assms have cp: "copy_file a b s0 = (r, t1)" by simp
  show ?thesis
  proof (cases r)
    case (Inl e)
    with copy_file_Inl [OF cp [unfolded Inl]] show ?thesis by simp
  next
    case (Inr u)
    with copy_file_Inr [OF cp [unfolded Inr]] show ?thesis by auto
  qed
qed

lemma cleanup_frame:
  "trace (snd (exit_and_cleanup_scratch od ofl iwd sd ff s)) = trace s @ [Cleanup] \<and>
   procs (snd (exit_and_cleanup_scratch od ofl iwd sd ff s)) = procs s \<and>
   (\<exists>out. stdout (snd (exit_and_cleanup_scratch od ofl iwd sd ff s)) = stdout s @ out)"
proof -
  define pub where "pub =
    (if path_exists (enter Cleanup s) (path_join sd (''partition_'' @ basename ff))
     then copy_file (path_join sd (''partition_'' @ basename ff)) (path_join od ofl)
            (enter Cleanup s)
     else (Inr (), print ''Error encountered, no result exists'' (enter Cleanup s)))"
  obtain r t1 where p: "pub = (r, t1)" by (cases pub) auto
  from publish_frame [OF p [unfolded pub_def]] obtain out where
    t1: "trace t1 = trace s @ [Cleanup]" "procs t1 = procs s" "stdout t1 = stdout s @ out"
    by (auto simp: enter_def)
  note u = cleanup_unfold [of od ofl iwd sd ff s, folded pub_def, unfolded p]
  show ?thesis
  proof (cases r)
    case (Inl e)
    with u t1 show ?thesis by simp
  next
    case r: (Inr v)
    obtain c t2 where ch: "chdir iwd t1 = (c, t2)" by (cases "chdir iwd t1") auto
    show ?thesis
    proof (cases c)
      case (Inl e)
      with chdir_Inl [OF ch [unfolded Inl]] u r ch t1 show ?thesis by simp
    next
      case c: (Inr w)
      from chdir_Inr [OF ch [unfolded c]] have t2: "t2 = t1\<lparr>cwd := resolve t1 iwd\<rparr>"
        by simp
      show ?thesis
      proof (cases "path_exists t2 sd")
        case False
        with u r ch c t1 t2 show ?thesis by simp
      next
        case True
        obtain d t3 where rm: "rmtree sd t2 = (d, t3)" by (cases "rmtree sd t2") auto
        have "trace t3 = trace t2 \<and> procs t3 = procs t2 \<and> stdout t3 = stdout t2"
          using rm by (auto simp: rmtree_def Let_def split: if_splits)
        with u r ch c t1 t2 True rm show ?thesis by simp
      qed
    qed
  qed
qed

lemma cleanup_Inr:
  assumes ok: "exit_and_cleanup_scratch od ofl iwd sd ff s = (Inr u, s')"
  shows "cwd s' = resolve s iwd \<and> resolve s' sd \<notin> dirs s' \<and>
         (resolve s' sd \<in> dirs s \<longrightarrow> (\<forall>p. within (resolve s' sd) p \<longrightarrow> files s' p = None))"
proof -
  define pub where "pub =
    (if path_exists (enter Cleanup s) (path_join sd (''partition_'' @ basename ff))
     then copy_file (path_join sd (''partition_'' @ basename ff)) (path_join od ofl)
            (enter Cleanup s)
     else (Inr (), print ''Error encountered, no result exists'' (enter Cleanup s)))"
  obtain r t1 where p: "pub = (r, t1)" by (cases pub) auto
  from publish_frame [OF p [unfolded pub_def]]
  have t1: "dirs t1 = dirs s" "cwd t1 = cwd s"
    by (auto simp: enter_def)
  note un = cleanup_unfold [of od ofl iwd sd ff s, folded pub_def, unfolded p]
  from ok un have r: "r = Inr ()" by (cases r) auto
  obtain c t2 where ch: "chdir iwd t1 = (c, t2)" by (cases "chdir iwd t1") auto
  from ok un r ch have c: "c = Inr ()" by (cases c) auto
  from chdir_Inr [OF ch [unfolded c]] have t2: "t2 = t1\<lparr>cwd := resolve t1 iwd\<rparr>"
    by simp
  have ri: "resolve t1 iwd = resolve s iwd"
    by (simp add: resolve_def t1)
  show ?thesis
  proof (cases "path_exists t2 sd")
    case False
    with ok un r ch c have s': "s' = t2" by simp
    from False have "resolve t2 sd \<notin> dirs t2" by (simp add: path_exists_def)
    then show ?thesis
      by (simp add: s' t2 t1 ri resolve_def)
  next
    case True
    with ok un r ch c have rm: "rmtree sd t2 = (Inr (), s')" by simp
    from rmtree_Inr [OF rm]
    have s': "s' = t2\<lparr>dirs := {d \<in> dirs t2. \<not> within (resolve t2 sd) d},
                     files := (\<lambda>q. if within (resolve t2 sd) q then None else files t2 q)\<rparr>"
      by simp
    have rs: "resolve s' sd = resolve t2 sd"
      by (simp add: s' resolve_def)
    show ?thesis
      unfolding rs by (simp add: s' t2 ri within_self)
  qed
qed

subsection \<open>The whole pipeline\<close>

lemma gcm_unfold:
  "gcm E inp chi seed od ofl sep s =
     (case gcm_try E (cwd s) inp chi seed sep s of
        (r, sdo, ffo, s1) \<Rightarrow>
          (case gcm_finally (case od of None \<Rightarrow> cwd s | Some d \<Rightarrow> d)
                  (case ofl of None \<Rightarrow> ''clustering_output.txt'' | Some f \<Rightarrow> f)
                  (cwd s) sdo ffo s1 of
             (Inl e, s2) \<Rightarrow> (Inl e, s2)
           | (Inr _, s2) \<Rightarrow> (r, s2)))"
  unfolding gcm_def Let_def by simp

lemma gcm_staged:
  fixes E :: env and sep :: "string option" and chi :: string and seed :: int
    and od :: "path option" and ofl :: "string option"
  assumes st: "setup_and_enter_scratch (cwd s) inp s = (Inr (sd, sf), s1)"
  defines "n \<equiv> basename inp"
  defines "ff \<equiv> path_stem n @ ''_formatted'' @ path_suffix n"
    and "kf \<equiv> path_stem n @ ''_key'' @ path_suffix n"
  defines "s2 \<equiv> snd (run_format_script E n sep s1)"
  defines "s3 \<equiv> snd (run_work_script E ff s2)"
  defines "s4 \<equiv> snd (run_clustering E ff chi seed s3)"
  defines "s5 \<equiv> snd (remap_partition_results kf ff s4)"
  defines "fin \<equiv> exit_and_cleanup_scratch (case od of None \<Rightarrow> cwd s | Some d \<Rightarrow> d)
                    (case ofl of None \<Rightarrow> ''clustering_output.txt'' | Some f \<Rightarrow> f)
                    (cwd s) sd ff s5"
  shows "gcm E inp chi seed od ofl sep s =
           (case fst fin of Inl e \<Rightarrow> Inl e | Inr _ \<Rightarrow> fst (remap_partition_results kf ff s4),
            snd fin)"
    and "trace s5 = trace s @ [Staging, Formatting, Preparation, Clustering, Remap]"
    and "procs s5 = procs s @
           [([''python'', path_join (source_dir E) ''format_edgelist.py'', n, ''--sep'',
              case sep of None \<Rightarrow> ''space'' | Some x \<Rightarrow> x], False),
            ([''bash'', path_join (source_dir E) ''work.sh'', ff], True),
            ([source_dir E @ ''/a.out'', ''2'', ''5'', ''2'', show_int seed, chi, ff], True)]"
    and "dirs s5 = dirs s1" and "cwd s5 = cwd s1"
    and "\<exists>out. stdout s5 = stdout s @ out"
proof -
  from setup_success [OF st] have s1: "trace s1 = trace s @ [Staging]" "procs s1 = procs s"
    "stdout s1 = stdout s" and nm: "n \<noteq> []" "n \<noteq> ''.''"
    by (simp_all add: n_def)
  note f = run_format_script_frame [OF nm, of E sep s1, folded s2_def]
  note w = run_work_script_frame [of E ff s2, folded s3_def]
  note c = run_clustering_frame [of E ff chi seed s3, folded s4_def]
  note r = remap_frame [of kf ff s4, folded s5_def]
  show "trace s5 = trace s @ [Staging, Formatting, Preparation, Clustering, Remap]"
    using f w c r s1 by simp
  show "procs s5 = procs s @
           [([''python'', path_join (source_dir E) ''format_edgelist.py'', n, ''--sep'',
              case sep of None \<Rightarrow> ''space'' | Some x \<Rightarrow> x], False),
            ([''bash'', path_join (source_dir E) ''work.sh'', ff], True),
            ([source_dir E @ ''/a.out'', ''2'', ''5'', ''2'', show_int seed, chi, ff], True)]"
    using f w c r s1 by simp
  show "dirs s5 = dirs s1" using f w c r by simp
  show "cwd s5 = cwd s1" using f w c r by simp
  show "\<exists>out. stdout s5 = stdout s @ out"
    using f w c r s1 by auto
  have t: "gcm_try E (cwd s) inp chi seed sep s =
             (fst (remap_partition_results kf ff s4), Some sd, Some ff, s5)"
    using gcm_try_staged(1) [OF st, where E = E and sep = sep and chi = chi and seed = seed]
    by (simp add: n_def ff_def kf_def s2_def s3_def s4_def s5_def)
  show "gcm E inp chi seed od ofl sep s =
           (case fst fin of Inl e \<Rightarrow> Inl e | Inr _ \<Rightarrow> fst (remap_partition_results kf ff s4),
            snd fin)"
    unfolding gcm_unfold t
    by (simp add: gcm_finally_def fin_def [symmetric] split_beta split: sum.splits)
qed

subsection \<open>The sample runs, step by step\<close>

lemma letters_0: "letters ! 0 = CHR ''a''"
  by (simp add: letters_def)

lemma zero_rng_name:
  assumes "rng s = (\<lambda>_. 0)"
  shows "fst (generate_random_string 4 s) = ''aaaa''"
proof -
  have four: "(4::nat) = Suc (Suc (Suc (Suc 0)))" by simp
  show ?thesis
    unfolding four using assms by (simp add: random_choice_def letters_0 split_beta)
qed

lemmas fs_eval = makedirs_def copy_file_def chdir_def rmtree_def read_file_def open_write_def
  path_exists_def dirname_def within_def enter_def print_def Let_def

lemma demo_setup:
  "setup_and_enter_scratch ''/w'' inp demo_world =
     (case copy_file inp (path_join ''/w/gcm_cache_aaaa'' (basename inp))
             (demo_world\<lparr>rng_pos := 4, trace := [Staging],
                dirs := {''/w/gcm_cache_aaaa'', ''/w'', ''/w/out''}\<rparr>) of
        (Inl e, s3) \<Rightarrow> (Inl e, s3)
      | (Inr _, s3) \<Rightarrow>
          (Inr (''/w/gcm_cache_aaaa'', path_join ''/w/gcm_cache_aaaa'' (basename inp)),
           s3\<lparr>cwd := ''/w/gcm_cache_aaaa''\<rparr>))"
proof -
  obtain r t where g: "generate_random_string 4 (enter Staging demo_world) = (r, t)"
    by (cases "generate_random_string 4 (enter Staging demo_world)") auto
  have r: "r = ''aaaa''"
    using zero_rng_name [of "enter Staging demo_world"] g by (simp add: enter_def demo_world_def)
  have t: "t = demo_world\<lparr>rng_pos := 4, trace := [Staging]\<rparr>"
    using generate_random_string_state [OF g] by (simp add: enter_def demo_world_def)
  have d: "path_join ''/w'' (''gcm_cache_'' @ r) = ''/w/gcm_cache_aaaa''"
    by (simp add: r path_eval)
  have mk: "makedirs ''/w/gcm_cache_aaaa'' t =
      (Inr (), demo_world\<lparr>rng_pos := 4, trace := [Staging],
                  dirs := {''/w/gcm_cache_aaaa'', ''/w'', ''/w/out''}\<rparr>)"
    by (simp add: t makedirs_def Let_def path_eval demo_world_def)
  have ch: "chdir ''/w/gcm_cache_aaaa'' s3 = (Inr (), s3\<lparr>cwd := ''/w/gcm_cache_aaaa''\<rparr>)"
    if "copy_file inp (path_join ''/w/gcm_cache_aaaa'' (basename inp))
             (demo_world\<lparr>rng_pos := 4, trace := [Staging],
                dirs := {''/w/gcm_cache_aaaa'', ''/w'', ''/w/out''}\<rparr>) = (Inr u, s3)" for u s3
  proof -
    from copy_file_Inr [OF that] obtain b c where
      "s3 = demo_world\<lparr>rng_pos := 4, trace := [Staging],
              dirs := {''/w/gcm_cache_aaaa'', ''/w'', ''/w/out''}, files := (files demo_world)(b \<mapsto> c)\<rparr>"
      by (auto simp: demo_world_def)
    then show ?thesis
      by (simp add: chdir_def Let_def path_eval demo_world_def)
  qed
  show ?thesis
    unfolding setup_unfold [OF g] d mk
    by (auto simp: ch split: prod.splits sum.splits)
qed

lemma demo_staged:
  "setup_and_enter_scratch ''/w'' ''g.txt'' demo_world =
     (Inr (''/w/gcm_cache_aaaa'', ''/w/gcm_cache_aaaa/g.txt''),
      demo_world\<lparr>rng_pos := 4, trace := [Staging],
         dirs := {''/w/gcm_cache_aaaa'', ''/w'', ''/w/out''},
         files := (files demo_world)(''/w/gcm_cache_aaaa/g.txt'' \<mapsto> text_of [''7 8'', ''8 9'']),
         cwd := ''/w/gcm_cache_aaaa''\<rparr>)"
  unfolding demo_setup
  by (simp add: copy_file_def dirname_def Let_def path_eval demo_world_def)

lemma demo_missing_input:
  "setup_and_enter_scratch ''/w'' ''missing.txt'' demo_world =
     (Inl FileNotFoundError,
      demo_world\<lparr>rng_pos := 4, trace := [Staging],
         dirs := {''/w/gcm_cache_aaaa'', ''/w'', ''/w/out''}\<rparr>)"
  unfolding demo_setup
  by (simp add: copy_file_def dirname_def Let_def path_eval demo_world_def)

lemmas run_eval = run_format_script_def run_work_script_def
  run_clustering_def subprocess_context_def subprocess_run_def remap_partition_results_def
  exit_and_cleanup_scratch_def with_stem_tag_def path_stem_def path_suffix_def
  demo_env_def demo_program_def

lemma cwd_demo: "cwd demo_world = ''/w''"
  by (simp add: demo_world_def)

lemma demo_staged_cwd:
  "setup_and_enter_scratch (cwd demo_world) ''g.txt'' demo_world =
     (Inr (''/w/gcm_cache_aaaa'', ''/w/gcm_cache_aaaa/g.txt''),
      demo_world\<lparr>rng_pos := 4, trace := [Staging],
         dirs := {''/w/gcm_cache_aaaa'', ''/w'', ''/w/out''},
         files := (files demo_world)(''/w/gcm_cache_aaaa/g.txt'' \<mapsto> text_of [''7 8'', ''8 9'']),
         cwd := ''/w/gcm_cache_aaaa''\<rparr>)"
  unfolding cwd_demo by (rule demo_staged)

lemma demo_missing_input_cwd:
  "setup_and_enter_scratch (cwd demo_world) ''missing.txt'' demo_world =
     (Inl FileNotFoundError,
      demo_world\<lparr>rng_pos := 4, trace := [Staging],
         dirs := {''/w/gcm_cache_aaaa'', ''/w'', ''/w/out''}\<rparr>)"
  unfolding cwd_demo by (rule demo_missing_input)

lemma gcm_staged_frames:
  fixes E :: env and sep :: "string option" and chi :: string and seed :: int
    and od :: "path option" and ofl :: "string option"
  assumes st: "setup_and_enter_scratch (cwd s) inp s = (Inr (sd, sf), s1)"
  shows "trace (snd (gcm E inp chi seed od ofl sep s)) =
           trace s @ [Staging, Formatting, Preparation, Clustering, Remap, Cleanup]"
    and "procs (snd (gcm E inp chi seed od ofl sep s)) = procs s @
           [([''python'', path_join (source_dir E) ''format_edgelist.py'', basename inp, ''--sep'',
              case sep of None \<Rightarrow> ''space'' | Some x \<Rightarrow> x], False),
            ([''bash'', path_join (source_dir E) ''work.sh'',
              path_stem (basename inp) @ ''_formatted'' @ path_suffix (basename inp)], True),
            ([source_dir E @ ''/a.out'', ''2'', ''5'', ''2'', show_int seed, chi,
              path_stem (basename inp) @ ''_formatted'' @ path_suffix (basename inp)], True)]"
proof -
  note g1 = gcm_staged(1) [OF st, where E = E and sep = sep and chi = chi and seed = seed
      and od = od and ofl = ofl]
  note g2 = gcm_staged(2) [OF st, where E = E and sep = sep and chi = chi and seed = seed]
  note g3 = gcm_staged(3) [OF st, where E = E and sep = sep and chi = chi and seed = seed]
  show "trace (snd (gcm E inp chi seed od ofl sep s)) =
           trace s @ [Staging, Formatting, Preparation, Clustering, Remap, Cleanup]"
    unfolding g1 using g2 by (simp add: cleanup_frame)
  show "procs (snd (gcm E inp chi seed od ofl sep s)) = procs s @
           [([''python'', path_join (source_dir E) ''format_edgelist.py'', basename inp, ''--sep'',
              case sep of None \<Rightarrow> ''space'' | Some x \<Rightarrow> x], False),
            ([''bash'', path_join (source_dir E) ''work.sh'',
              path_stem (basename inp) @ ''_formatted'' @ path_suffix (basename inp)], True),
            ([source_dir E @ ''/a.out'', ''2'', ''5'', ''2'', show_int seed, chi,
              path_stem (basename inp) @ ''_formatted'' @ path_suffix (basename inp)], True)]"
    unfolding g1 using g3 by (simp add: cleanup_frame)
qed

subsection \<open>Claims about the pipeline\<close>

text \<open>
  C6. If \<open>_setup_and_enter_scratch\<close> raises, the \<open>finally\<close> block of \<open>gcm\<close> raises
  \<open>UnboundLocalError\<close> for \<open>scratch_directory\<close> while evaluating the arguments of the
  cleanup call. \<open>gcm\<close> ends with this error instead of the staging error, in the world the
  failed staging left: the cleanup step is never entered, nothing is printed and the working
  directory is unchanged.
\<close>

theorem staging_failure_masks_error:
  assumes st: "setup_and_enter_scratch (cwd s) inp s = (Inl e, s1)"
  shows "gcm E inp chi seed od ofl sep s = (Inl (UnboundLocalError ''scratch_directory''), s1) \<and>
         e \<noteq> UnboundLocalError ''scratch_directory'' \<and>
         trace s1 = trace s @ [Staging] \<and> stdout s1 = stdout s \<and> cwd s1 = cwd s"
proof -
  have "gcm_try E (cwd s) inp chi seed sep s = (Inl e, None, None, s1)"
    by (simp add: gcm_try_def st)
  then have "gcm E inp chi seed od ofl sep s = (Inl (UnboundLocalError ''scratch_directory''), s1)"
    by (simp add: gcm_unfold gcm_finally_def)
  with setup_failure [OF st] show ?thesis by auto
qed

theorem staging_failure_masks_error_witness:
  "fst (setup_and_enter_scratch (cwd demo_world) ''missing.txt'' demo_world) = Inl FileNotFoundError \<and>
   fst (gcm (demo_env 0 [] []) ''missing.txt'' ''0.0'' 12345 None None None demo_world) =
     Inl (UnboundLocalError ''scratch_directory'') \<and>
   trace (snd (gcm (demo_env 0 [] []) ''missing.txt'' ''0.0'' 12345 None None None demo_world)) =
     [Staging] \<and>
   ''/w/gcm_cache_aaaa'' \<in>
     dirs (snd (gcm (demo_env 0 [] []) ''missing.txt'' ''0.0'' 12345 None None None demo_world))"
proof -
  let ?g = "gcm (demo_env 0 [] []) ''missing.txt'' ''0.0'' 12345 None None None demo_world"
  have a: "fst (setup_and_enter_scratch (cwd demo_world) ''missing.txt'' demo_world) =
             Inl FileNotFoundError"
    by (simp add: demo_missing_input_cwd)
  from staging_failure_masks_error [OF demo_missing_input_cwd,
      of "demo_env 0 [] []" "''0.0''" 12345 None None None]
  have b: "?g = (Inl (UnboundLocalError ''scratch_directory''),
                 demo_world\<lparr>rng_pos := 4, trace := [Staging],
                   dirs := {''/w/gcm_cache_aaaa'', ''/w'', ''/w/out''}\<rparr>)"
    by simp
  have c: "fst ?g = Inl (UnboundLocalError ''scratch_directory'')"
    "trace (snd ?g) = [Staging]" "''/w/gcm_cache_aaaa'' \<in> dirs (snd ?g)"
    unfolding b by simp_all
  from a c show ?thesis by simp
qed

text \<open>
  C10. In every run whose staging succeeds the clustering binary is started exactly once, as
  the last of three child processes, with the six arguments \<open>2\<close>, \<open>5\<close>, \<open>2\<close>, the seed,
  the chi value and the formatted file name (the input's base name with \<open>_formatted\<close>
  before its suffix), and with \<open>check=True\<close>.
\<close>

theorem clustering_argument_vector:
  assumes st: "setup_and_enter_scratch (cwd s) inp s = (Inr (sd, sf), s1)"
  shows "procs (snd (gcm E inp chi seed od ofl sep s)) = procs s @
           [([''python'', path_join (source_dir E) ''format_edgelist.py'', basename inp, ''--sep'',
              case sep of None \<Rightarrow> ''space'' | Some x \<Rightarrow> x], False),
            ([''bash'', path_join (source_dir E) ''work.sh'',
              path_stem (basename inp) @ ''_formatted'' @ path_suffix (basename inp)], True),
            ([source_dir E @ ''/a.out'', ''2'', ''5'', ''2'', show_int seed, chi,
              path_stem (basename inp) @ ''_formatted'' @ path_suffix (basename inp)], True)]"
  using st by (rule gcm_staged_frames(2))

theorem clustering_argument_vector_witness:
  "fst (setup_and_enter_scratch (cwd demo_world) ''g.txt'' demo_world) =
     Inr (''/w/gcm_cache_aaaa'', ''/w/gcm_cache_aaaa/g.txt'') \<and>
   last (procs (snd (gcm (demo_env 0 [] []) ''g.txt'' ''0.0'' 12345 None None None demo_world))) =
     ([''/src/a.out'', ''2'', ''5'', ''2'', ''12345'', ''0.0'', ''g_formatted.txt''], True)"
proof -
  have a: "fst (setup_and_enter_scratch (cwd demo_world) ''g.txt'' demo_world) =
             Inr (''/w/gcm_cache_aaaa'', ''/w/gcm_cache_aaaa/g.txt'')"
    by (simp add: demo_staged_cwd)
  have b: "last (procs (snd (gcm (demo_env 0 [] []) ''g.txt'' ''0.0'' 12345 None None None
                 demo_world))) =
     ([''/src/a.out'', ''2'', ''5'', ''2'', ''12345'', ''0.0'', ''g_formatted.txt''], True)"
    unfolding clustering_argument_vector [OF demo_staged_cwd,
      of "demo_env 0 [] []" "''0.0''" 12345 None None None]
    by (simp add: demo_env_def path_eval path_stem_def path_suffix_def show_int_def
        show_nat.simps digit_char_def)
  from a b show ?thesis by simp
qed

text \<open>
  C8. Whatever an external program does, the invoker (\<open>subprocess.run\<close> inside
  \<open>subprocess_context\<close>) returns normally. A missing executable, an expired time limit
  and a non-zero exit of a checked step each print one diagnostic. Hence
  \<open>run_work_script\<close> and \<open>run_clustering\<close> never raise, \<open>run_format_script\<close> does not
  raise for a proper file name, and every run whose staging succeeds goes through all stages
  and enters the cleanup step last.
\<close>

theorem external_failures_are_caught:
  "fst (subprocess_context (subprocess_run E argv check) s) = Inr () \<and>
   (fst (program E argv (files s) (cwd s)) = NotFound \<longrightarrow>
      stdout (snd (subprocess_context (subprocess_run E argv check) s)) =
        stdout s @ [''Process failed because the executable could not be found.'']) \<and>
   (fst (program E argv (files s) (cwd s)) = TimedOut \<longrightarrow>
      stdout (snd (subprocess_context (subprocess_run E argv check) s)) =
        stdout s @ [''Process timed out.'']) \<and>
   (\<forall>rc. fst (program E argv (files s) (cwd s)) = Exited rc \<and> rc \<noteq> 0 \<and> check \<longrightarrow>
      stdout (snd (subprocess_context (subprocess_run E argv check) s)) =
        stdout s @ [''Process failed: did not return a successful code. Returned '' @ show_int rc]) \<and>
   fst (run_work_script E f s) = Inr () \<and>
   fst (run_clustering E f chi seed s) = Inr () \<and>
   (f \<noteq> [] \<and> f \<noteq> ''.'' \<longrightarrow> (\<exists>r. fst (run_format_script E f sep s) = Inr r)) \<and>
   (\<forall>sd sf s1. setup_and_enter_scratch (cwd s) inp s = (Inr (sd, sf), s1) \<longrightarrow>
      trace (snd (gcm E inp chi seed od ofl sep s)) =
        trace s @ [Staging, Formatting, Preparation, Clustering, Remap, Cleanup])"
proof -
  have a: "fst (subprocess_context (subprocess_run E argv check) s) = Inr ()"
    using invoke_shape [of E argv check s] by auto
  obtain oc fs where p: "program E argv (files s) (cwd s) = (oc, fs)"
    by (cases "program E argv (files s) (cwd s)") auto
  have b: "stdout (snd (subprocess_context (subprocess_run E argv check) s)) =
             stdout s @ [''Process failed because the executable could not be found.'']"
    if "oc = NotFound"
    using that p by (simp add: subprocess_context_def subprocess_run_def print_def)
  have c: "stdout (snd (subprocess_context (subprocess_run E argv check) s)) =
             stdout s @ [''Process timed out.'']"
    if "oc = TimedOut"
    using that p by (simp add: subprocess_context_def subprocess_run_def print_def)
  have d: "stdout (snd (subprocess_context (subprocess_run E argv check) s)) =
             stdout s @ [''Process failed: did not return a successful code. Returned '' @ show_int rc]"
    if "oc = Exited rc" "rc \<noteq> 0" "check" for rc
    using that p by (simp add: subprocess_context_def subprocess_run_def print_def)
  have e: "fst (run_work_script E f s) = Inr ()" "fst (run_clustering E f chi seed s) = Inr ()"
    using run_work_script_frame [of E f s] run_clustering_frame [of E f chi seed s]
    by simp_all
  have g: "\<exists>r. fst (run_format_script E f sep s) = Inr r" if "f \<noteq> []" "f \<noteq> ''.''"
    using run_format_script_frame [OF that, of E sep s] by blast
  have h: "trace (snd (gcm E inp chi seed od ofl sep s)) =
        trace s @ [Staging, Formatting, Preparation, Clustering, Remap, Cleanup]"
    if "setup_and_enter_scratch (cwd s) inp s = (Inr (sd, sf), s1)" for sd sf s1
    using that by (rule gcm_staged_frames(1))
  from a b c d e g h show ?thesis
    unfolding p by simp
qed

theorem external_failures_are_caught_witness:
  "stdout (snd (subprocess_context (subprocess_run (failing_env NotFound) [''bash''] True)
      demo_world)) = [''Process failed because the executable could not be found.''] \<and>
   stdout (snd (subprocess_context (subprocess_run (failing_env TimedOut) [''bash''] True)
      demo_world)) = [''Process timed out.''] \<and>
   stdout (snd (subprocess_context (subprocess_run (failing_env (Exited 3)) [''bash''] True)
      demo_world)) = [''Process failed: did not return a successful code. Returned 3''] \<and>
   (\<exists>r. fst (run_format_script (failing_env NotFound) ''g.txt'' None demo_world) = Inr r) \<and>
   trace (snd (gcm (failing_env NotFound) ''g.txt'' ''0.0'' 12345 None None None demo_world)) =
     [Staging, Formatting, Preparation, Clustering, Remap, Cleanup]"
proof -
  note t = external_failures_are_caught [where s = demo_world and argv = "[''bash'']"
      and check = True and f = "''g.txt''" and inp = "''g.txt''" and sep = None
      and chi = "''0.0''" and seed = 12345 and od = None and ofl = None]
  have a: "stdout (snd (subprocess_context (subprocess_run (failing_env NotFound) [''bash''] True)
      demo_world)) = [''Process failed because the executable could not be found.'']"
    using t [of "failing_env NotFound"] by (simp add: failing_env_def demo_world_def)
  have b: "stdout (snd (subprocess_context (subprocess_run (failing_env TimedOut) [''bash''] True)
      demo_world)) = [''Process timed out.'']"
    using t [of "failing_env TimedOut"] by (simp add: failing_env_def demo_world_def)
  have c: "stdout (snd (subprocess_context (subprocess_run (failing_env (Exited 3)) [''bash''] True)
      demo_world)) = [''Process failed: did not return a successful code. Returned 3'']"
    using t [of "failing_env (Exited 3)"]
    by (simp add: failing_env_def demo_world_def show_int_def show_nat.simps digit_char_def)
  have d: "\<exists>r. fst (run_format_script (failing_env NotFound) ''g.txt'' None demo_world) = Inr r"
    using t [of "failing_env NotFound"] by simp
  have e: "trace (snd (gcm (failing_env NotFound) ''g.txt'' ''0.0'' 12345 None None None
              demo_world)) = [Staging, Formatting, Preparation, Clustering, Remap, Cleanup]"
    using t [of "failing_env NotFound"] demo_staged_cwd by (simp add: demo_world_def)
  from a b c d e show ?thesis by simp
qed






lemma resolve_abs: "is_abs p \<Longrightarrow> resolve s p = p"
  by (simp add: resolve_def path_join_abs)

lemma gcm_try_bound:
  fixes E :: env and sep :: "string option" and chi :: string and seed :: int
  assumes tr: "gcm_try E iwd inp chi seed sep s = (r, Some sd, Some ff, s5)"
  shows "\<exists>sf s1. setup_and_enter_scratch iwd inp s = (Inr (sd, sf), s1) \<and>
           ff = path_stem (basename inp) @ ''_formatted'' @ path_suffix (basename inp) \<and>
           s5 = snd (remap_partition_results
                  (path_stem (basename inp) @ ''_key'' @ path_suffix (basename inp)) ff
                  (snd (run_clustering E ff chi seed
                    (snd (run_work_script E ff
                      (snd (run_format_script E (basename inp) sep s1))))))) \<and>
           r = fst (remap_partition_results
                  (path_stem (basename inp) @ ''_key'' @ path_suffix (basename inp)) ff
                  (snd (run_clustering E ff chi seed
                    (snd (run_work_script E ff
                      (snd (run_format_script E (basename inp) sep s1)))))))"
proof -
  obtain a s1 where su: "setup_and_enter_scratch iwd inp s = (a, s1)"
    by (cases "setup_and_enter_scratch iwd inp s") auto
  show ?thesis
  proof (cases a)
    case (Inl e)
    with tr su show ?thesis by (simp add: gcm_try_def)
  next
    case (Inr p)
    obtain sd' sf where p: "p = (sd', sf)" by (cases p)
    note st = su [unfolded Inr p]
    let ?ff = "path_stem (basename inp) @ ''_formatted'' @ path_suffix (basename inp)"
    let ?R = "remap_partition_results
                (path_stem (basename inp) @ ''_key'' @ path_suffix (basename inp)) ?ff
                (snd (run_clustering E ?ff chi seed
                  (snd (run_work_script E ?ff
                    (snd (run_format_script E (basename inp) sep s1))))))"
    have "(r, Some sd, Some ff, s5) = (fst ?R, Some sd', Some ?ff, snd ?R)"
      by (rule trans [OF tr [symmetric]
            gcm_try_staged(1) [OF st, where E = E and sep = sep and chi = chi and seed = seed]])
    then have 1: "sd' = sd" and 2: "ff = ?ff" and 3: "s5 = snd ?R" and 4: "r = fst ?R"
      unfolding prod.inject option.inject by blast+
    show ?thesis
      unfolding 2
      by (rule exI [of _ sf], rule exI [of _ s1]) (simp add: st [unfolded 1] 3 4)
  qed
qed

text \<open>
  C5 (as the code has it). The remap stage runs inside the \<open>try\<close> block. When the block
  raises an error \<open>e\<close> after staging and formatting have assigned both local variables
  (then \<open>e\<close> comes from the remap stage, the only one that can raise there), the
  \<open>finally\<close> block still enters the cleanup step, once and last. When the cleanup step
  completes, the working directory is restored, the scratch directory and the files in it are
  removed, and \<open>e\<close> propagates out of \<open>gcm\<close>.
\<close>

theorem remap_failure_still_cleans_up:
  fixes E :: env and sep :: "string option" and chi :: string and seed :: int
    and od :: "path option" and ofl :: "string option"
  assumes abs: "is_abs (cwd s)"
    and tr: "gcm_try E (cwd s) inp chi seed sep s = (Inl e, Some sd, Some ff, s5)"
    and fin: "exit_and_cleanup_scratch (case od of None \<Rightarrow> cwd s | Some d \<Rightarrow> d)
                (case ofl of None \<Rightarrow> ''clustering_output.txt'' | Some f \<Rightarrow> f)
                (cwd s) sd ff s5 = (Inr (), s6)"
  shows "gcm E inp chi seed od ofl sep s = (Inl e, s6) \<and>
         trace s6 = trace s @ [Staging, Formatting, Preparation, Clustering, Remap, Cleanup] \<and>
         cwd s6 = cwd s \<and> sd \<notin> dirs s6 \<and> (\<forall>p. within sd p \<longrightarrow> files s6 p = None)"
proof -
  from gcm_try_bound [OF tr] obtain sf s1 where
    st: "setup_and_enter_scratch (cwd s) inp s = (Inr (sd, sf), s1)"
    and ff: "ff = path_stem (basename inp) @ ''_formatted'' @ path_suffix (basename inp)"
    and s5: "s5 = snd (remap_partition_results
                  (path_stem (basename inp) @ ''_key'' @ path_suffix (basename inp)) ff
                  (snd (run_clustering E ff chi seed
                    (snd (run_work_script E ff
                      (snd (run_format_script E (basename inp) sep s1)))))))"
    by blast
  have g: "gcm E inp chi seed od ofl sep s = (Inl e, s6)"
    unfolding gcm_unfold tr by (simp add: gcm_finally_def fin)
  have t5: "trace s5 = trace s @ [Staging, Formatting, Preparation, Clustering, Remap]"
    unfolding s5 ff
    by (rule gcm_staged(2) [OF st, where E = E and sep = sep and chi = chi and seed = seed])
  have d5: "dirs s5 = dirs s1"
    unfolding s5 ff
    by (rule gcm_staged(4) [OF st, where E = E and sep = sep and chi = chi and seed = seed])
  from setup_success [OF st] obtain r where
    d1: "dirs s1 = insert (resolve s sd) (dirs s)" and sd: "sd = path_join (cwd s) (''gcm_cache_'' @ r)"
    by blast
  have asd: "is_abs sd"
    unfolding sd using abs by (rule is_abs_path_join)
  have t6: "trace s6 = trace s5 @ [Cleanup]"
    using cleanup_frame [of "case od of None \<Rightarrow> cwd s | Some d \<Rightarrow> d"
        "case ofl of None \<Rightarrow> ''clustering_output.txt'' | Some f \<Rightarrow> f" "cwd s" sd ff s5]
    by (simp add: fin)
  from cleanup_Inr [OF fin]
  have c: "cwd s6 = cwd s" "sd \<notin> dirs s6"
    "sd \<in> dirs s5 \<longrightarrow> (\<forall>p. within sd p \<longrightarrow> files s6 p = None)"
    by (simp_all add: resolve_abs abs asd)
  have "sd \<in> dirs s5"
    by (simp add: d5 d1 resolve_abs asd)
  with c g t5 t6 show ?thesis by simp
qed

lemma demo_key_error_run:
  "gcm_try (demo_env 0 (text_of [''10 1'', ''20 2'', ''30 3'']) (text_of [''0'', ''1'', ''0'', ''1'']))
      (cwd demo_world) ''g.txt'' ''0.0'' 12345 None demo_world =
     (Inl (KeyError 4), Some ''/w/gcm_cache_aaaa'', Some ''g_formatted.txt'',
      snd (snd (snd (gcm_try (demo_env 0 (text_of [''10 1'', ''20 2'', ''30 3''])
         (text_of [''0'', ''1'', ''0'', ''1''])) (cwd demo_world) ''g.txt'' ''0.0'' 12345 None
         demo_world))))"
  unfolding gcm_try_staged(1) [OF demo_staged_cwd]
  by (simp add: run_eval fs_eval path_eval text_eval demo_world_def)

lemma demo_key_error_cleanup:
  "fst (exit_and_cleanup_scratch ''/w'' ''clustering_output.txt'' ''/w'' ''/w/gcm_cache_aaaa''
     ''g_formatted.txt''
     (snd (snd (snd (gcm_try (demo_env 0 (text_of [''10 1'', ''20 2'', ''30 3''])
         (text_of [''0'', ''1'', ''0'', ''1''])) (cwd demo_world) ''g.txt'' ''0.0'' 12345 None
         demo_world))))) = Inr ()"
  unfolding gcm_try_staged(1) [OF demo_staged_cwd]
  by (simp add: run_eval fs_eval path_eval text_eval demo_world_def)

lemma is_abs_demo: "is_abs (cwd demo_world)"
  by (simp add: demo_world_def is_abs_def)

theorem remap_failure_still_cleans_up_witness:
  "is_abs (cwd demo_world) \<and>
   fst (gcm (demo_env 0 (text_of [''10 1'', ''20 2'', ''30 3'']) (text_of [''0'', ''1'', ''0'', ''1'']))
      ''g.txt'' ''0.0'' 12345 None None None demo_world) = Inl (KeyError 4) \<and>
   trace (snd (gcm (demo_env 0 (text_of [''10 1'', ''20 2'', ''30 3''])
      (text_of [''0'', ''1'', ''0'', ''1''])) ''g.txt'' ''0.0'' 12345 None None None demo_world)) =
     [Staging, Formatting, Preparation, Clustering, Remap, Cleanup] \<and>
   cwd (snd (gcm (demo_env 0 (text_of [''10 1'', ''20 2'', ''30 3''])
      (text_of [''0'', ''1'', ''0'', ''1''])) ''g.txt'' ''0.0'' 12345 None None None demo_world)) =
     ''/w'' \<and>
   ''/w/gcm_cache_aaaa'' \<notin> dirs (snd (gcm (demo_env 0 (text_of [''10 1'', ''20 2'', ''30 3''])
      (text_of [''0'', ''1'', ''0'', ''1''])) ''g.txt'' ''0.0'' 12345 None None None demo_world))"
proof -
  let ?E = "demo_env 0 (text_of [''10 1'', ''20 2'', ''30 3'']) (text_of [''0'', ''1'', ''0'', ''1''])"
  let ?s5 = "snd (snd (snd (gcm_try ?E (cwd demo_world) ''g.txt'' ''0.0'' 12345 None demo_world)))"
  let ?fin = "exit_and_cleanup_scratch (case None of None \<Rightarrow> cwd demo_world | Some d \<Rightarrow> d)
     (case None of None \<Rightarrow> ''clustering_output.txt'' | Some f \<Rightarrow> f) (cwd demo_world)
     ''/w/gcm_cache_aaaa'' ''g_formatted.txt'' ?s5"
  have fin: "?fin = (Inr (), snd ?fin)"
    using demo_key_error_cleanup by (simp add: cwd_demo prod_eq_iff)
  note t = remap_failure_still_cleans_up [OF is_abs_demo demo_key_error_run fin]
  from t have "fst (gcm ?E ''g.txt'' ''0.0'' 12345 None None None demo_world) = Inl (KeyError 4)"
    "trace (snd (gcm ?E ''g.txt'' ''0.0'' 12345 None None None demo_world)) =
       trace demo_world @ [Staging, Formatting, Preparation, Clustering, Remap, Cleanup]"
    "cwd (snd (gcm ?E ''g.txt'' ''0.0'' 12345 None None None demo_world)) = cwd demo_world"
    "''/w/gcm_cache_aaaa'' \<notin> dirs (snd (gcm ?E ''g.txt'' ''0.0'' 12345 None None None demo_world))"
    by simp_all
  then show ?thesis
    using is_abs_demo by (simp add: demo_world_def)
qed

text \<open>
  A run in which the partition has four lines and the key file three entries: the remap
  stage raises \<open>KeyError 4\<close>, and the cleanup step runs after it. It publishes the three
  lines written before the error, restores the working directory and removes the scratch
  directory; then the error leaves \<open>gcm\<close>.
\<close>

theorem remap_failure_cleanup_counterexample:
  "fst (gcm (demo_env 0 (text_of [''10 1'', ''20 2'', ''30 3'']) (text_of [''0'', ''1'', ''0'', ''1'']))
      ''g.txt'' ''0.0'' 12345 None None None demo_world) = Inl (KeyError 4) \<and>
   Cleanup \<in> set (trace (snd (gcm (demo_env 0 (text_of [''10 1'', ''20 2'', ''30 3''])
      (text_of [''0'', ''1'', ''0'', ''1''])) ''g.txt'' ''0.0'' 12345 None None None demo_world))) \<and>
   cwd (snd (gcm (demo_env 0 (text_of [''10 1'', ''20 2'', ''30 3''])
      (text_of [''0'', ''1'', ''0'', ''1''])) ''g.txt'' ''0.0'' 12345 None None None demo_world)) =
     ''/w'' \<and>
   ''/w/gcm_cache_aaaa'' \<notin> dirs (snd (gcm (demo_env 0 (text_of [''10 1'', ''20 2'', ''30 3''])
      (text_of [''0'', ''1'', ''0'', ''1''])) ''g.txt'' ''0.0'' 12345 None None None demo_world)) \<and>
   files (snd (gcm (demo_env 0 (text_of [''10 1'', ''20 2'', ''30 3''])
      (text_of [''0'', ''1'', ''0'', ''1''])) ''g.txt'' ''0.0'' 12345 None None None demo_world))
     ''/w/clustering_output.txt'' = Some (text_of [''10 0'', ''20 1'', ''30 0''])"
  unfolding gcm_staged(1) [OF demo_staged_cwd]
  by (simp add: run_eval fs_eval path_eval text_eval demo_world_def)

lemma result_name:
  "basename (path_join sd (''partition_'' @ basename ff)) = ''partition_'' @ basename ff"
proof -
  have "CHR ''/'' \<notin> set (''partition_'' @ basename ff)"
    using basename_no_slash [of ff] by simp
  then have "basename (''partition_'' @ basename ff) = ''partition_'' @ basename ff"
    by (rule basename_id)
  then show ?thesis
    by (simp only: basename_path_join)
qed

text \<open>
  C9 (as the code has it). The cleanup step looks for \<open>partition_\<close> followed by the
  formatted file's base name inside the scratch directory. Let the original working
  directory and the scratch directory be given by absolute paths of existing directories.
  If the result is absent, one diagnostic is printed, the working directory is restored and
  the scratch directory removed. If the result is a file and the destination
  \<open><output_dir>/<output_file>\<close>, taken from the current working directory, lies in an
  existing directory outside the scratch directory (and is not itself a directory), the
  result is copied there, and the same cleanup follows.
\<close>

theorem publish_is_best_effort:
  fixes od :: path and ofl :: string and iwd :: path and sd :: path and ff :: string
    and s :: world
  assumes abs: "is_abs iwd" "is_abs sd" and di: "iwd \<in> dirs s" "sd \<in> dirs s"
  defines "rp \<equiv> path_join sd (''partition_'' @ basename ff)"
  defines "dst \<equiv> resolve s (path_join od ofl)"
  defines "R \<equiv> exit_and_cleanup_scratch od ofl iwd sd ff s"
  shows "(files s rp = None \<and> rp \<notin> dirs s \<longrightarrow>
            fst R = Inr () \<and>
            stdout (snd R) = stdout s @ [''Error encountered, no result exists''] \<and>
            cwd (snd R) = iwd \<and> sd \<notin> dirs (snd R) \<and>
            (\<forall>p. within sd p \<longrightarrow> files (snd R) p = None)) \<and>
         (\<forall>c. files s rp = Some c \<and> dst \<noteq> rp \<and> dst \<notin> dirs s \<and> dirname dst \<in> dirs s \<and>
               \<not> within sd dst \<longrightarrow>
            fst R = Inr () \<and> files (snd R) dst = Some c \<and> stdout (snd R) = stdout s \<and>
            cwd (snd R) = iwd \<and> sd \<notin> dirs (snd R) \<and>
            (\<forall>p. within sd p \<longrightarrow> files (snd R) p = None))"
proof -
  have arp: "is_abs rp"
    unfolding rp_def using abs(2) by (rule is_abs_path_join)
  have j: "path_join c iwd = iwd" "path_join c sd = sd" "path_join c rp = rp" for c
    using abs arp by (simp_all add: path_join_abs)
  have nm: "basename rp \<noteq> []" "basename rp \<noteq> ''.''" "basename rp \<noteq> ''..''"
    unfolding rp_def result_name by simp_all
  have absent: "R = (Inr (), s\<lparr>trace := trace s @ [Cleanup],
         stdout := stdout s @ [''Error encountered, no result exists''], cwd := iwd,
         dirs := {d \<in> dirs s. \<not> within sd d},
         files := (\<lambda>q. if within sd q then None else files s q)\<rparr>)"
    if "files s rp = None" "rp \<notin> dirs s"
    using that di unfolding R_def cleanup_unfold rp_def [symmetric]
    by (simp add: path_exists_def resolve_def j enter_def print_def chdir_def rmtree_def Let_def
        cong: if_cong)
  have present: "R = (Inr (), s\<lparr>trace := trace s @ [Cleanup], cwd := iwd,
         dirs := {d \<in> dirs s. \<not> within sd d},
         files := (\<lambda>q. if within sd q then None else ((files s)(dst \<mapsto> c)) q)\<rparr>)"
    if "files s rp = Some c" "dst \<noteq> rp" "dst \<notin> dirs s" "dirname dst \<in> dirs s" for c
    using that di nm unfolding R_def cleanup_unfold rp_def [symmetric]
    by (simp add: path_exists_def resolve_def j enter_def copy_file_def chdir_def rmtree_def
        Let_def dst_def cong: if_cong)
  show ?thesis
  proof (intro conjI allI impI)
    assume "files s rp = None \<and> rp \<notin> dirs s"
    then have r: "R = (Inr (), s\<lparr>trace := trace s @ [Cleanup],
         stdout := stdout s @ [''Error encountered, no result exists''], cwd := iwd,
         dirs := {d \<in> dirs s. \<not> within sd d},
         files := (\<lambda>q. if within sd q then None else files s q)\<rparr>)"
      using absent by blast
    show "fst R = Inr ()" "stdout (snd R) = stdout s @ [''Error encountered, no result exists'']"
      "cwd (snd R) = iwd" "sd \<notin> dirs (snd R)"
      by (simp_all add: r within_self)
    show "within sd p \<Longrightarrow> files (snd R) p = None" for p
      by (simp add: r)
  next
    fix c
    assume h: "files s rp = Some c \<and> dst \<noteq> rp \<and> dst \<notin> dirs s \<and> dirname dst \<in> dirs s \<and>
               \<not> within sd dst"
    then have r: "R = (Inr (), s\<lparr>trace := trace s @ [Cleanup], cwd := iwd,
         dirs := {d \<in> dirs s. \<not> within sd d},
         files := (\<lambda>q. if within sd q then None else ((files s)(dst \<mapsto> c)) q)\<rparr>)"
      using present by blast
    show "fst R = Inr ()" "stdout (snd R) = stdout s" "cwd (snd R) = iwd" "sd \<notin> dirs (snd R)"
      by (simp_all add: r within_self)
    show "files (snd R) dst = Some c"
      using h by (simp add: r)
    show "within sd p \<Longrightarrow> files (snd R) p = None" for p
      by (simp add: r)
  qed
qed

theorem publish_is_best_effort_witness:
  "stdout (snd (exit_and_cleanup_scratch ''/w'' ''out.txt'' ''/w'' ''/w/gcm_cache_aaaa''
      ''g_formatted.txt'' (publish_world Map.empty))) = [''Error encountered, no result exists''] \<and>
   ''/w/gcm_cache_aaaa'' \<notin> dirs (snd (exit_and_cleanup_scratch ''/w'' ''out.txt'' ''/w''
      ''/w/gcm_cache_aaaa'' ''g_formatted.txt'' (publish_world Map.empty))) \<and>
   files (snd (exit_and_cleanup_scratch ''/w'' ''out.txt'' ''/w'' ''/w/gcm_cache_aaaa''
      ''g_formatted.txt''
      (publish_world [''/w/gcm_cache_aaaa/partition_g_formatted.txt'' \<mapsto> text_of [''10 0'']])))
     ''/w/out.txt'' = Some (text_of [''10 0'']) \<and>
   cwd (snd (exit_and_cleanup_scratch ''/w'' ''out.txt'' ''/w'' ''/w/gcm_cache_aaaa''
      ''g_formatted.txt''
      (publish_world [''/w/gcm_cache_aaaa/partition_g_formatted.txt'' \<mapsto> text_of [''10 0'']]))) =
     ''/w''"
proof -
  have a: "is_abs ''/w''" "is_abs ''/w/gcm_cache_aaaa''"
    by (simp_all add: is_abs_def)
  have d: "''/w'' \<in> dirs (publish_world fs)" "''/w/gcm_cache_aaaa'' \<in> dirs (publish_world fs)" for fs
    by (simp_all add: publish_world_def)
  have r: "path_join ''/w/gcm_cache_aaaa'' (''partition_'' @ basename ''g_formatted.txt'') =
             ''/w/gcm_cache_aaaa/partition_g_formatted.txt''"
    by (simp add: path_eval)
  have t: "resolve (publish_world fs) (path_join ''/w'' ''out.txt'') = ''/w/out.txt''" for fs
    by (simp add: path_eval)
  have o: "dirname ''/w/out.txt'' = ''/w''" "\<not> within ''/w/gcm_cache_aaaa'' ''/w/out.txt''"
    by (simp_all add: dirname_def within_def)
  note p = publish_is_best_effort [OF a d, where od = "''/w''" and ofl = "''out.txt''"
      and ff = "''g_formatted.txt''", unfolded r t o]
  have "files (publish_world Map.empty) ''/w/gcm_cache_aaaa/partition_g_formatted.txt'' = None \<and>
        ''/w/gcm_cache_aaaa/partition_g_formatted.txt'' \<notin> dirs (publish_world Map.empty)"
    by (simp add: publish_world_def)
  with p [of Map.empty] have 1:
    "stdout (snd (exit_and_cleanup_scratch ''/w'' ''out.txt'' ''/w'' ''/w/gcm_cache_aaaa''
        ''g_formatted.txt'' (publish_world Map.empty))) =
       stdout (publish_world Map.empty) @ [''Error encountered, no result exists'']"
    "''/w/gcm_cache_aaaa'' \<notin> dirs (snd (exit_and_cleanup_scratch ''/w'' ''out.txt'' ''/w''
        ''/w/gcm_cache_aaaa'' ''g_formatted.txt'' (publish_world Map.empty)))"
    by blast+
  let ?fs = "[''/w/gcm_cache_aaaa/partition_g_formatted.txt'' \<mapsto> text_of [''10 0'']]"
  have "files (publish_world ?fs) ''/w/gcm_cache_aaaa/partition_g_formatted.txt'' =
          Some (text_of [''10 0'']) \<and>
        ''/w/out.txt'' \<noteq> ''/w/gcm_cache_aaaa/partition_g_formatted.txt'' \<and>
        ''/w/out.txt'' \<notin> dirs (publish_world ?fs) \<and> ''/w'' \<in> dirs (publish_world ?fs)"
    by (simp add: publish_world_def)
  with p [of ?fs] o(2) have 2:
    "files (snd (exit_and_cleanup_scratch ''/w'' ''out.txt'' ''/w'' ''/w/gcm_cache_aaaa''
        ''g_formatted.txt'' (publish_world ?fs))) ''/w/out.txt'' = Some (text_of [''10 0''])"
    "cwd (snd (exit_and_cleanup_scratch ''/w'' ''out.txt'' ''/w'' ''/w/gcm_cache_aaaa''
        ''g_formatted.txt'' (publish_world ?fs))) = ''/w''"
    by blast+
  from 1 2 show ?thesis
    by (simp add: publish_world_def)
qed

text \<open>
  The result exists in the scratch directory, the output directory \<open>/nowhere\<close> does not:
  the copy raises \<open>FileNotFoundError\<close> and nothing is written to the destination.
\<close>

theorem publish_missing_output_dir_counterexample:
  "files (publish_world [''/w/gcm_cache_aaaa/partition_g_formatted.txt'' \<mapsto> text_of [''10 0'']])
     ''/w/gcm_cache_aaaa/partition_g_formatted.txt'' = Some (text_of [''10 0'']) \<and>
   fst (exit_and_cleanup_scratch ''/nowhere'' ''out.txt'' ''/w'' ''/w/gcm_cache_aaaa''
      ''g_formatted.txt''
      (publish_world [''/w/gcm_cache_aaaa/partition_g_formatted.txt'' \<mapsto> text_of [''10 0'']])) =
     Inl FileNotFoundError \<and>
   files (snd (exit_and_cleanup_scratch ''/nowhere'' ''out.txt'' ''/w'' ''/w/gcm_cache_aaaa''
      ''g_formatted.txt''
      (publish_world [''/w/gcm_cache_aaaa/partition_g_formatted.txt'' \<mapsto> text_of [''10 0'']])))
     ''/nowhere/out.txt'' = None"
  by (simp add: exit_and_cleanup_scratch_def fs_eval path_eval publish_world_def)

text \<open>
  C1, evaluated on a sample run. Staging, the three external steps and the remap stage all
  succeed; the caller asked for the output directory \<open>out\<close>, a directory of the original
  working directory \<open>/w\<close>. The cleanup step is entered once, but it takes \<open>out\<close> from the
  scratch directory, where no such directory exists: \<open>shutil.copy\<close> raises, and the
  statements that restore the working directory and remove the scratch directory are
  skipped. \<open>gcm\<close> ends with \<open>FileNotFoundError\<close>, nothing is published, the working
  directory is still the scratch directory and the scratch directory is still on disk.
\<close>

theorem relative_output_dir_skips_cleanup:
  "fst (setup_and_enter_scratch (cwd demo_world) ''g.txt'' demo_world) =
     Inr (''/w/gcm_cache_aaaa'', ''/w/gcm_cache_aaaa/g.txt'') \<and>
   ''/w/out'' \<in> dirs demo_world \<and>
   fst (gcm (demo_env 0 (text_of [''10 1'', ''20 2'', ''30 3'']) (text_of [''0'', ''1'', ''0'']))
      ''g.txt'' ''0.0'' 12345 (Some ''out'') None None demo_world) = Inl FileNotFoundError \<and>
   trace (snd (gcm (demo_env 0 (text_of [''10 1'', ''20 2'', ''30 3'']) (text_of [''0'', ''1'', ''0'']))
      ''g.txt'' ''0.0'' 12345 (Some ''out'') None None demo_world)) =
     [Staging, Formatting, Preparation, Clustering, Remap, Cleanup] \<and>
   cwd (snd (gcm (demo_env 0 (text_of [''10 1'', ''20 2'', ''30 3'']) (text_of [''0'', ''1'', ''0'']))
      ''g.txt'' ''0.0'' 12345 (Some ''out'') None None demo_world)) = ''/w/gcm_cache_aaaa'' \<and>
   ''/w/gcm_cache_aaaa'' \<in> dirs (snd (gcm (demo_env 0 (text_of [''10 1'', ''20 2'', ''30 3''])
      (text_of [''0'', ''1'', ''0''])) ''g.txt'' ''0.0'' 12345 (Some ''out'') None None demo_world)) \<and>
   files (snd (gcm (demo_env 0 (text_of [''10 1'', ''20 2'', ''30 3'']) (text_of [''0'', ''1'', ''0'']))
      ''g.txt'' ''0.0'' 12345 (Some ''out'') None None demo_world)) ''/w/out/clustering_output.txt'' =
     None"
proof -
  let ?G = "gcm (demo_env 0 (text_of [''10 1'', ''20 2'', ''30 3'']) (text_of [''0'', ''1'', ''0'']))
      ''g.txt'' ''0.0'' 12345 (Some ''out'') None None demo_world"
  have a: "fst (setup_and_enter_scratch (cwd demo_world) ''g.txt'' demo_world) =
     Inr (''/w/gcm_cache_aaaa'', ''/w/gcm_cache_aaaa/g.txt'')"
    by (simp add: demo_staged_cwd)
  have b: "''/w/out'' \<in> dirs demo_world"
    by (simp add: demo_world_def)
  have c: "fst ?G = Inl FileNotFoundError \<and>
           trace (snd ?G) = [Staging, Formatting, Preparation, Clustering, Remap, Cleanup] \<and>
           cwd (snd ?G) = ''/w/gcm_cache_aaaa'' \<and> ''/w/gcm_cache_aaaa'' \<in> dirs (snd ?G) \<and>
           files (snd ?G) ''/w/out/clustering_output.txt'' = None"
    unfolding gcm_staged(1) [OF demo_staged_cwd]
    by (simp add: run_eval fs_eval path_eval text_eval demo_world_def)
  from a b c show ?thesis by simp
qed

end
